theory Spec2Isabelle
  imports Complex_Main "HOL-Library.Log_Nat"
begin

section \<open>Gateway resilience layer: circuit breaker and rate limiter\<close>

text \<open>
  The development embeds \<^verbatim>\<open>backend/src/gateway/circuit_breaker.py\<close> and
  \<^verbatim>\<open>backend/src/gateway/rate_limiter.py\<close>.

  Conventions of the embedding.
  \<^item> Python \<^verbatim>\<open>int\<close> is \<^typ>\<open>int\<close>. A Python \<^verbatim>\<open>float\<close> is the \<^typ>\<open>rat\<close> it denotes, and
    every arithmetic operation on floats rounds its exact result to the nearest double
    (\<open>round_double\<close> below). A \<^verbatim>\<open>datetime\<close> is the \<^typ>\<open>rat\<close> of its seconds since
    the epoch; \<^verbatim>\<open>datetime\<close> and \<^verbatim>\<open>timedelta\<close> arithmetic is exact.
  \<^item> Every reading of the clock (\<^verbatim>\<open>datetime.utcnow()\<close>, \<^verbatim>\<open>time.time()\<close>) is an argument of the
    function that reads it, one argument per reading.
  \<^item> A method that mutates \<^verbatim>\<open>stats\<close> or \<^verbatim>\<open>self\<close> returns the updated value.
  \<^item> A raised exception is the left summand of the result. Where the method has
    mutated an object before it raises, the exception comes with the object as the method
    left it.
  \<^item> A leading underscore of a method name is dropped; where the class also has a public
    method of that name the private one carries the prefix \<open>priv_\<close>.
  \<^item> Log lines change no state and are left out for the circuit breaker, except the
    one of \<^verbatim>\<open>_send_circuit_alert\<close>, which raises; the rate limiter returns the log lines of
    its exception handlers.
\<close>

subsection \<open>Python helpers\<close>

datatype py_error = ZeroDivisionError | IndexError | TypeError

text \<open>\<^verbatim>\<open>int(x)\<close> of a float truncates towards zero.\<close>

definition py_int :: "rat \<Rightarrow> int" where
  "py_int x = (if 0 \<le> x then \<lfloor>x\<rfloor> else \<lceil>x\<rceil>)"

subsection \<open>Double precision\<close>

text \<open>
  Rounding to the nearest integer, ties to the even one.
\<close>

definition round_half_even :: "rat \<Rightarrow> int" where
  "round_half_even x =
     (let f = \<lfloor>x\<rfloor>; d = x - of_int f
      in if d < 1 / 2 then f else if 1 / 2 < d then f + 1
         else if even f then f else f + 1)"

text \<open>The binary exponent of a positive number: \<open>2 ^ ilog2 x \<le> x < 2 ^ (ilog2 x + 1)\<close>.\<close>

definition ilog2 :: "rat \<Rightarrow> int" where
  "ilog2 x =
     (case quotient_of x of
        (a, b) \<Rightarrow>
          let d = bitlen a - bitlen b
          in if 2 powi d \<le> x then d else d - 1)"

text \<open>
  The exponent that fixes the spacing of the doubles around \<open>a\<close>: below \<open>2 ^ - 1022\<close>
  the doubles are subnormal and keep the spacing of that binade.
\<close>

definition dexp :: "rat \<Rightarrow> int" where
  "dexp a = max (ilog2 a) (- 1022)"

text \<open>
  The double nearest to \<open>x\<close> (IEEE 754 binary64, round to nearest, ties to even): 53
  significant bits. Overflow to infinity, which starts at \<open>2 ^ 1024\<close>, is not
  modelled, and neither are infinities and NaN as values.
\<close>

definition round_double :: "rat \<Rightarrow> rat" where
  "round_double x =
     (if x = 0 then 0
      else
        let a = \<bar>x\<bar>;
            q = 2 powi (dexp a - 52)
        in sgn x * (q * of_int (round_half_even (a / q))))"

text \<open>Float arithmetic; \<^verbatim>\<open>float(n)\<close> of an integer.\<close>

definition f_add :: "rat \<Rightarrow> rat \<Rightarrow> rat" where
  "f_add x y = round_double (x + y)"

definition f_sub :: "rat \<Rightarrow> rat \<Rightarrow> rat" where
  "f_sub x y = round_double (x - y)"

definition f_mul :: "rat \<Rightarrow> rat \<Rightarrow> rat" where
  "f_mul x y = round_double (x * y)"

definition f_div :: "rat \<Rightarrow> rat \<Rightarrow> rat" where
  "f_div x y = round_double (x / y)"

definition float_of_int :: "int \<Rightarrow> rat" where
  "float_of_int n = round_double (of_int n)"

text \<open>
  A Python number that is an \<^verbatim>\<open>int\<close> or a \<^verbatim>\<open>float\<close> at run time, with the arithmetic
  the interpreter chooses: exact on two integers, in doubles otherwise. Comparisons
  between the two kinds are exact.
\<close>

datatype py_num = PyInt int | PyFloat rat

fun num_val :: "py_num \<Rightarrow> rat" where
  "num_val (PyInt n) = of_int n"
| "num_val (PyFloat x) = x"

fun to_float :: "py_num \<Rightarrow> rat" where
  "to_float (PyInt n) = float_of_int n"
| "to_float (PyFloat x) = x"

fun num_sub :: "py_num \<Rightarrow> py_num \<Rightarrow> py_num" where
  "num_sub (PyInt m) (PyInt n) = PyInt (m - n)"
| "num_sub a b = PyFloat (f_sub (to_float a) (to_float b))"

fun num_int :: "py_num \<Rightarrow> int" where
  "num_int (PyInt n) = n"
| "num_int (PyFloat x) = py_int x"

text \<open>\<^verbatim>\<open>min(a, b)\<close> returns \<open>b\<close> when \<open>b < a\<close> and \<open>a\<close> otherwise.\<close>

definition num_min :: "py_num \<Rightarrow> py_num \<Rightarrow> py_num" where
  "num_min a b = (if num_val b < num_val a then b else a)"

subsection \<open>Circuit breaker: data model\<close>

datatype CircuitState = CLOSED | OPEN | HALF_OPEN

record CircuitBreakerConfig =
  failure_threshold :: int
  success_threshold :: int
  timeout :: int
  slow_call_duration_threshold :: rat
  slow_call_rate_threshold :: rat
  minimum_number_of_calls :: int
  sliding_window_size :: int
  max_wait_duration_in_half_open :: int

record CircuitBreakerStats =
  state :: CircuitState
  failure_count :: int
  success_count :: int
  last_failure_time :: "rat option"
  last_success_time :: "rat option"
  total_requests :: int
  failed_requests :: int
  slow_requests :: int
  average_response_time :: rat
  next_attempt_time :: "rat option"

text \<open>\<^verbatim>\<open>CircuitBreakerStats(state=s)\<close>: every other field takes its default.\<close>

definition new_CircuitBreakerStats :: "CircuitState \<Rightarrow> CircuitBreakerStats" where
  "new_CircuitBreakerStats s =
     \<lparr>state = s, failure_count = 0, success_count = 0,
      last_failure_time = None, last_success_time = None,
      total_requests = 0, failed_requests = 0, slow_requests = 0,
      average_response_time = 0, next_attempt_time = None\<rparr>"

subsection \<open>Configuration and its validation\<close>

text \<open>
  The configuration classes are pydantic models: the constructor checks every
  \<^verbatim>\<open>Field(ge=..., le=...)\<close> bound and raises \<^verbatim>\<open>ValidationError\<close>, which lists the
  fields that failed. The argument of a constructor below is the record of the values
  passed, defaults filled in. A bound written \<^verbatim>\<open>0.1\<close> or \<^verbatim>\<open>0.8\<close> is the double of that
  literal. Assignment to a field of a constructed object is not validated (the classes
  do not set \<^verbatim>\<open>validate_assignment\<close>): it is the record update.
\<close>

datatype config_error = ValidationError "string list"

definition CircuitBreakerConfig_defaults :: CircuitBreakerConfig where
  "CircuitBreakerConfig_defaults =
     \<lparr>failure_threshold = 5, success_threshold = 3, timeout = 60,
      slow_call_duration_threshold = 5, slow_call_rate_threshold = round_double (8 / 10),
      minimum_number_of_calls = 10, sliding_window_size = 100,
      max_wait_duration_in_half_open = 30\<rparr>"

definition CircuitBreakerConfig_violations :: "CircuitBreakerConfig \<Rightarrow> string list" where
  "CircuitBreakerConfig_violations c =
     (if failure_threshold c \<ge> 1 then [] else [''failure_threshold'']) @
     (if success_threshold c \<ge> 1 then [] else [''success_threshold'']) @
     (if timeout c \<ge> 1 then [] else [''timeout'']) @
     (if slow_call_duration_threshold c \<ge> round_double (1 / 10)
      then [] else [''slow_call_duration_threshold'']) @
     (if slow_call_rate_threshold c \<ge> round_double (1 / 10) \<and> slow_call_rate_threshold c \<le> 1
      then [] else [''slow_call_rate_threshold'']) @
     (if minimum_number_of_calls c \<ge> 1 then [] else [''minimum_number_of_calls'']) @
     (if sliding_window_size c \<ge> 10 then [] else [''sliding_window_size'']) @
     (if max_wait_duration_in_half_open c \<ge> 1 then [] else [''max_wait_duration_in_half_open''])"

definition new_CircuitBreakerConfig :: "CircuitBreakerConfig \<Rightarrow> config_error + CircuitBreakerConfig" where
  "new_CircuitBreakerConfig c =
     (case CircuitBreakerConfig_violations c of
        [] \<Rightarrow> Inr c
      | v # vs \<Rightarrow> Inl (ValidationError (v # vs)))"

text \<open>The table \<^verbatim>\<open>self.default_configs\<close> of the circuit breaker.\<close>

definition cb_default_config_args :: "(string \<times> CircuitBreakerConfig) list" where
  "cb_default_config_args =
     [(''trading'', CircuitBreakerConfig_defaults
         \<lparr>failure_threshold := 3, timeout := 30, slow_call_duration_threshold := 2\<rparr>),
      (''risk'', CircuitBreakerConfig_defaults
         \<lparr>failure_threshold := 5, timeout := 60, slow_call_duration_threshold := 5\<rparr>),
      (''compliance'', CircuitBreakerConfig_defaults
         \<lparr>failure_threshold := 10, timeout := 120, slow_call_duration_threshold := 10\<rparr>),
      (''iot'', CircuitBreakerConfig_defaults
         \<lparr>failure_threshold := 8, timeout := 45, slow_call_duration_threshold := 3\<rparr>),
      (''default'', CircuitBreakerConfig_defaults)]"

definition cb_default_configs :: "string \<rightharpoonup> CircuitBreakerConfig" where
  "cb_default_configs = map_of cb_default_config_args"

text \<open>
  \<^verbatim>\<open>if config is None: config = self.default_configs.get(service_name,
  self.default_configs["default"])\<close>.
\<close>

definition cb_config_for :: "CircuitBreakerConfig option \<Rightarrow> string \<Rightarrow> CircuitBreakerConfig" where
  "cb_config_for config service_name =
     (case config of
        Some c \<Rightarrow> c
      | None \<Rightarrow>
          (case cb_default_configs service_name of
             Some c \<Rightarrow> c
           | None \<Rightarrow> CircuitBreakerConfig_defaults))"

subsection \<open>Circuit breaker: transitions and recording on one stats object\<close>

text \<open>
  \<^verbatim>\<open>_send_circuit_alert\<close> builds a dictionary with the key \<^verbatim>\<open>"event"\<close> and calls
  \<^verbatim>\<open>logger.info("Circuit breaker alert", **alert_data)\<close>. The first parameter of the
  logger's method is named \<^verbatim>\<open>event\<close>, so the call passes it twice and raises
  \<^verbatim>\<open>TypeError\<close>, whatever the arguments.
\<close>

definition send_circuit_alert :: "string \<Rightarrow> CircuitBreakerStats \<Rightarrow> py_error + unit" where
  "send_circuit_alert event stats = Inl TypeError"

text \<open>
  The three transitions set the fields and then await the alert as their last
  statement. \<open>utcnow\<close> is the reading of the clock inside \<^verbatim>\<open>_transition_to_open\<close>.
\<close>

definition transition_to_open ::
  "CircuitBreakerConfig \<Rightarrow> rat \<Rightarrow> CircuitBreakerStats
     \<Rightarrow> (py_error \<times> CircuitBreakerStats) + CircuitBreakerStats" where
  "transition_to_open config utcnow stats =
     (let stats' = stats\<lparr>state := OPEN,
                          next_attempt_time := Some (utcnow + of_int (timeout config))\<rparr>
      in case send_circuit_alert ''OPENED'' stats' of
           Inl e \<Rightarrow> Inl (e, stats')
         | Inr u \<Rightarrow> Inr stats')"

definition transition_to_half_open ::
  "CircuitBreakerStats \<Rightarrow> (py_error \<times> CircuitBreakerStats) + CircuitBreakerStats" where
  "transition_to_half_open stats =
     (let stats' = stats\<lparr>state := HALF_OPEN, success_count := 0, failure_count := 0,
                          next_attempt_time := None\<rparr>
      in case send_circuit_alert ''HALF_OPENED'' stats' of
           Inl e \<Rightarrow> Inl (e, stats')
         | Inr u \<Rightarrow> Inr stats')"

definition transition_to_closed ::
  "CircuitBreakerStats \<Rightarrow> (py_error \<times> CircuitBreakerStats) + CircuitBreakerStats" where
  "transition_to_closed stats =
     (let stats' = stats\<lparr>state := CLOSED, success_count := 0, failure_count := 0,
                          next_attempt_time := None\<rparr>
      in case send_circuit_alert ''CLOSED'' stats' of
           Inl e \<Rightarrow> Inl (e, stats')
         | Inr u \<Rightarrow> Inr stats')"

text \<open>\<^verbatim>\<open>_apply_sliding_window\<close>: \<^verbatim>\<open>int(n * 0.8)\<close>, the product of a float and an integer.\<close>

definition decay :: "int \<Rightarrow> int" where
  "decay n = py_int (f_mul (float_of_int n) (round_double (8 / 10)))"

definition apply_sliding_window :: "CircuitBreakerStats \<Rightarrow> CircuitBreakerStats" where
  "apply_sliding_window stats =
     stats\<lparr>total_requests := decay (total_requests stats),
           failed_requests := decay (failed_requests stats),
           slow_requests := decay (slow_requests stats)\<rparr>"

text \<open>
  \<^verbatim>\<open>_can_proceed_async\<close>: the answer and the stats object as the call leaves it. \<open>now\<close> is
  the reading at entry. The two rates are true divisions of integers, which give the
  double nearest to the quotient and raise on a zero total.
\<close>

definition can_proceed_async ::
  "CircuitBreakerConfig \<Rightarrow> rat \<Rightarrow> rat \<Rightarrow> CircuitBreakerStats
     \<Rightarrow> (py_error \<times> CircuitBreakerStats) + (bool \<times> CircuitBreakerStats)" where
  "can_proceed_async config now utcnow stats =
     (case state stats of
        CLOSED \<Rightarrow>
          if total_requests stats \<ge> minimum_number_of_calls config then
            if total_requests stats = 0 then Inl (ZeroDivisionError, stats)
            else
              let failure_rate = round_double (of_int (failed_requests stats)
                                               / of_int (total_requests stats));
                  slow_rate = round_double (of_int (slow_requests stats)
                                            / of_int (total_requests stats))
              in if failure_rate \<ge> 1 / 2 \<or> slow_rate \<ge> slow_call_rate_threshold config
                 then (case transition_to_open config utcnow stats of
                         Inl (e, stats') \<Rightarrow> Inl (e, stats')
                       | Inr stats' \<Rightarrow> Inr (False, stats'))
                 else Inr (True, stats)
          else Inr (True, stats)
      | OPEN \<Rightarrow>
          (case next_attempt_time stats of
             Some t \<Rightarrow>
               if now \<ge> t
               then (case transition_to_half_open stats of
                       Inl (e, stats') \<Rightarrow> Inl (e, stats')
                     | Inr stats' \<Rightarrow> Inr (True, stats'))
               else Inr (False, stats)
           | None \<Rightarrow> Inr (False, stats))
      | HALF_OPEN \<Rightarrow> Inr (success_count stats < success_threshold config, stats))"

text \<open>The running mean both recorders keep; \<open>stats\<close> already counts the new request.\<close>

definition update_average ::
  "rat \<Rightarrow> CircuitBreakerStats \<Rightarrow> py_error + CircuitBreakerStats" where
  "update_average response_time stats =
     (if total_requests stats = 1
      then Inr (stats\<lparr>average_response_time := response_time\<rparr>)
      else if total_requests stats = 0 then Inl ZeroDivisionError
      else Inr (stats\<lparr>average_response_time :=
                  f_div (f_add (f_mul (average_response_time stats)
                                      (float_of_int (total_requests stats - 1)))
                               response_time)
                        (float_of_int (total_requests stats))\<rparr>))"

text \<open>
  \<^verbatim>\<open>_record_success\<close> up to, and without, the call of \<^verbatim>\<open>_save_circuit_stats\<close>:
  what it does to the stats object. When it raises, in the mean or in the transition,
  the later steps are skipped.
\<close>

definition record_success_update ::
  "CircuitBreakerConfig \<Rightarrow> rat \<Rightarrow> rat \<Rightarrow> CircuitBreakerStats
     \<Rightarrow> (py_error \<times> CircuitBreakerStats) + CircuitBreakerStats" where
  "record_success_update config response_time now stats =
     (let s1 = stats\<lparr>success_count := success_count stats + 1,
                     total_requests := total_requests stats + 1,
                     last_success_time := Some now\<rparr>
      in case update_average response_time s1 of
           Inl e \<Rightarrow> Inl (e, s1)
         | Inr s2 \<Rightarrow>
             let s3 = (if response_time > slow_call_duration_threshold config
                       then s2\<lparr>slow_requests := slow_requests s2 + 1\<rparr> else s2)
             in case (if state s3 = HALF_OPEN \<and> success_count s3 \<ge> success_threshold config
                      then transition_to_closed s3 else Inr s3) of
                  Inl (e, s4) \<Rightarrow> Inl (e, s4)
                | Inr s4 \<Rightarrow>
                    Inr (if total_requests s4 > sliding_window_size config
                         then apply_sliding_window s4 else s4))"

text \<open>\<^verbatim>\<open>_record_failure\<close>, likewise without the save.\<close>

definition record_failure_update ::
  "CircuitBreakerConfig \<Rightarrow> rat \<Rightarrow> rat \<Rightarrow> rat \<Rightarrow> CircuitBreakerStats
     \<Rightarrow> (py_error \<times> CircuitBreakerStats) + CircuitBreakerStats" where
  "record_failure_update config response_time now utcnow stats =
     (let s1 = stats\<lparr>failure_count := failure_count stats + 1,
                     total_requests := total_requests stats + 1,
                     failed_requests := failed_requests stats + 1,
                     last_failure_time := Some now\<rparr>
      in case update_average response_time s1 of
           Inl e \<Rightarrow> Inl (e, s1)
         | Inr s2 \<Rightarrow>
             (case (if state s2 = CLOSED then
                      (if failure_count s2 \<ge> failure_threshold config
                       then transition_to_open config utcnow s2 else Inr s2)
                    else if state s2 = HALF_OPEN then transition_to_open config utcnow s2
                    else Inr s2) of
                Inl (e, s3) \<Rightarrow> Inl (e, s3)
              | Inr s3 \<Rightarrow>
                  Inr (if total_requests s3 > sliding_window_size config
                       then apply_sliding_window s3 else s3)))"

text \<open>The stats object as a recorder, or the asynchronous check, leaves it.\<close>

definition stats_left ::
  "(py_error \<times> CircuitBreakerStats) + CircuitBreakerStats \<Rightarrow> CircuitBreakerStats" where
  "stats_left r = (case r of Inl (e, stats) \<Rightarrow> stats | Inr stats \<Rightarrow> stats)"

definition stats_left_by_check ::
  "(py_error \<times> CircuitBreakerStats) + (bool \<times> CircuitBreakerStats) \<Rightarrow> CircuitBreakerStats" where
  "stats_left_by_check r = (case r of Inl (e, stats) \<Rightarrow> stats | Inr (b, stats) \<Rightarrow> stats)"

text \<open>
  A sequence of completed calls recorded in order on one stats object, as on the cached
  object of a breaker without store; a recorder that raises leaves the object to the
  next one. Each entry is (the call succeeded, its response time, the reading of
  \<^verbatim>\<open>now\<close> in the recorder, the reading inside \<^verbatim>\<open>_transition_to_open\<close>).
\<close>

fun record_outcomes ::
  "CircuitBreakerConfig \<Rightarrow> (bool \<times> rat \<times> rat \<times> rat) list \<Rightarrow> CircuitBreakerStats
     \<Rightarrow> CircuitBreakerStats" where
  "record_outcomes config [] stats = stats"
| "record_outcomes config ((ok, response_time, now, utcnow) # rest) stats =
     record_outcomes config rest
       (stats_left (if ok then record_success_update config response_time now stats
                    else record_failure_update config response_time now utcnow stats))"

subsection \<open>The shared store\<close>

text \<open>
  The Redis server as the client sees it: its contents \<open>db\<close> and a schedule of faults.
  Each call of the client consumes the head of the schedule and raises when it is
  \<open>True\<close>; an exhausted schedule means that every further call succeeds. A raised call
  leaves the contents as they are. Expiry of keys by their time to live is not modelled.
\<close>

record 'd redis =
  faults :: "bool list"
  db :: 'd

definition redis_call :: "('d \<Rightarrow> 'a \<times> 'd) \<Rightarrow> 'd redis \<Rightarrow> 'd redis + ('a \<times> 'd redis)" where
  "redis_call f r =
     (case faults r of
        [] \<Rightarrow> (case f (db r) of (a, d) \<Rightarrow> Inr (a, r\<lparr>db := d\<rparr>))
      | b # bs \<Rightarrow>
          if b then Inl (r\<lparr>faults := bs\<rparr>)
          else (case f (db r) of (a, d) \<Rightarrow> Inr (a, \<lparr>faults = bs, db = d\<rparr>)))"

text \<open>\<^verbatim>\<open>EXPIRE\<close> and \<^verbatim>\<open>PING\<close>: a round trip with no modelled effect.\<close>

definition redis_noop :: "'d \<Rightarrow> unit \<times> 'd" where
  "redis_noop d = ((), d)"

subsection \<open>Circuit breaker: the object with its local cache and its store\<close>

text \<open>
  The hash at \<^verbatim>\<open>circuit_breaker:{service}\<close>: a field is \<open>None\<close> when the hash does not
  have it. The values are kept typed; \<^verbatim>\<open>str\<close>/\<^verbatim>\<open>int\<close>, \<^verbatim>\<open>isoformat\<close>/\<^verbatim>\<open>fromisoformat\<close>
  and the enum's \<^verbatim>\<open>value\<close> are taken to round-trip. A key that does not exist reads as
  the hash with no field.
\<close>

record cb_hash =
  h_state :: "CircuitState option"
  h_failure_count :: "int option"
  h_success_count :: "int option"
  h_last_failure_time :: "rat option"
  h_last_success_time :: "rat option"
  h_total_requests :: "int option"
  h_failed_requests :: "int option"
  h_slow_requests :: "int option"
  h_average_response_time :: "rat option"
  h_next_attempt_time :: "rat option"

definition empty_hash :: cb_hash where
  "empty_hash =
     \<lparr>h_state = None, h_failure_count = None, h_success_count = None,
      h_last_failure_time = None, h_last_success_time = None,
      h_total_requests = None, h_failed_requests = None, h_slow_requests = None,
      h_average_response_time = None, h_next_attempt_time = None\<rparr>"

type_synonym cb_db = "string \<Rightarrow> cb_hash"

definition empty_cb_db :: cb_db where
  "empty_cb_db = (\<lambda>service_name. empty_hash)"

text \<open>\<^verbatim>\<open>HGETALL key\<close>.\<close>

definition hgetall :: "string \<Rightarrow> cb_db \<Rightarrow> cb_hash \<times> cb_db" where
  "hgetall service_name d = (d service_name, d)"

text \<open>
  \<^verbatim>\<open>HSET key field value [field value ...]\<close> writes the fields it is given and leaves
  every other field of the hash as it is.
\<close>

definition or_else :: "'a option \<Rightarrow> 'a option \<Rightarrow> 'a option" where
  "or_else new old = (case new of Some v \<Rightarrow> Some v | None \<Rightarrow> old)"

definition hset :: "string \<Rightarrow> cb_hash \<Rightarrow> cb_db \<Rightarrow> unit \<times> cb_db" where
  "hset service_name mapping d =
     (let old = d service_name
      in ((), d(service_name :=
            \<lparr>h_state = or_else (h_state mapping) (h_state old),
             h_failure_count = or_else (h_failure_count mapping) (h_failure_count old),
             h_success_count = or_else (h_success_count mapping) (h_success_count old),
             h_last_failure_time = or_else (h_last_failure_time mapping) (h_last_failure_time old),
             h_last_success_time = or_else (h_last_success_time mapping) (h_last_success_time old),
             h_total_requests = or_else (h_total_requests mapping) (h_total_requests old),
             h_failed_requests = or_else (h_failed_requests mapping) (h_failed_requests old),
             h_slow_requests = or_else (h_slow_requests mapping) (h_slow_requests old),
             h_average_response_time =
               or_else (h_average_response_time mapping) (h_average_response_time old),
             h_next_attempt_time =
               or_else (h_next_attempt_time mapping) (h_next_attempt_time old)\<rparr>)))"

record CircuitBreaker =
  cb_redis_client :: "cb_db redis option"
  circuits :: "string \<rightharpoonup> CircuitBreakerStats"

text \<open>\<^verbatim>\<open>CircuitBreaker(redis_client)\<close>.\<close>

definition new_CircuitBreaker :: "cb_db redis option \<Rightarrow> CircuitBreaker" where
  "new_CircuitBreaker client = \<lparr>cb_redis_client = client, circuits = Map.empty\<rparr>"

text \<open>The stats object \<^verbatim>\<open>_get_circuit_stats\<close> builds from a hash that has a field.\<close>

definition stats_of_hash :: "cb_hash \<Rightarrow> CircuitBreakerStats" where
  "stats_of_hash data =
     \<lparr>state = (case h_state data of Some s \<Rightarrow> s | None \<Rightarrow> CLOSED),
      failure_count = (case h_failure_count data of Some n \<Rightarrow> n | None \<Rightarrow> 0),
      success_count = (case h_success_count data of Some n \<Rightarrow> n | None \<Rightarrow> 0),
      last_failure_time = h_last_failure_time data,
      last_success_time = h_last_success_time data,
      total_requests = (case h_total_requests data of Some n \<Rightarrow> n | None \<Rightarrow> 0),
      failed_requests = (case h_failed_requests data of Some n \<Rightarrow> n | None \<Rightarrow> 0),
      slow_requests = (case h_slow_requests data of Some n \<Rightarrow> n | None \<Rightarrow> 0),
      average_response_time = (case h_average_response_time data of Some x \<Rightarrow> x | None \<Rightarrow> 0),
      next_attempt_time = h_next_attempt_time data\<rparr>"

text \<open>
  The tail of \<^verbatim>\<open>_get_circuit_stats\<close>: the object of the local cache, created when the
  service has none.
\<close>

definition local_circuit_stats ::
  "CircuitBreaker \<Rightarrow> string \<Rightarrow> CircuitBreakerStats \<times> bool \<times> CircuitBreaker" where
  "local_circuit_stats cb service_name =
     (case circuits cb service_name of
        None \<Rightarrow>
          (new_CircuitBreakerStats CLOSED, True,
           cb\<lparr>circuits := (circuits cb)(service_name \<mapsto> new_CircuitBreakerStats CLOSED)\<rparr>)
      | Some stats \<Rightarrow> (stats, True, cb))"

text \<open>
  \<^verbatim>\<open>_get_circuit_stats\<close>. The flag of the result says whether the returned object is the
  one held in \<^verbatim>\<open>self._circuits\<close> (so that a later mutation of it is a mutation of the
  cache) or a fresh object built from the store. An exception of the store is caught.
\<close>

definition priv_get_circuit_stats ::
  "CircuitBreaker \<Rightarrow> string \<Rightarrow> CircuitBreakerStats \<times> bool \<times> CircuitBreaker" where
  "priv_get_circuit_stats cb service_name =
     (case cb_redis_client cb of
        Some r \<Rightarrow>
          (case redis_call (hgetall service_name) r of
             Inl r' \<Rightarrow> local_circuit_stats (cb\<lparr>cb_redis_client := Some r'\<rparr>) service_name
           | Inr (data, r') \<Rightarrow>
               if data \<noteq> empty_hash
               then (stats_of_hash data, False, cb\<lparr>cb_redis_client := Some r'\<rparr>)
               else local_circuit_stats (cb\<lparr>cb_redis_client := Some r'\<rparr>) service_name)
      | None \<Rightarrow> local_circuit_stats cb service_name)"

text \<open>The \<^verbatim>\<open>mapping\<close> that \<^verbatim>\<open>_save_circuit_stats\<close> hands to \<^verbatim>\<open>hset\<close>.\<close>

definition hash_of_stats :: "CircuitBreakerStats \<Rightarrow> cb_hash" where
  "hash_of_stats stats =
     \<lparr>h_state = Some (state stats),
      h_failure_count = Some (failure_count stats),
      h_success_count = Some (success_count stats),
      h_last_failure_time = last_failure_time stats,
      h_last_success_time = last_success_time stats,
      h_total_requests = Some (total_requests stats),
      h_failed_requests = Some (failed_requests stats),
      h_slow_requests = Some (slow_requests stats),
      h_average_response_time = Some (average_response_time stats),
      h_next_attempt_time = next_attempt_time stats\<rparr>"

text \<open>\<^verbatim>\<open>_save_circuit_stats\<close>. An exception of the store is caught.\<close>

definition save_circuit_stats ::
  "CircuitBreaker \<Rightarrow> string \<Rightarrow> CircuitBreakerStats \<Rightarrow> CircuitBreaker" where
  "save_circuit_stats cb service_name stats =
     (let cb1 = cb\<lparr>circuits := (circuits cb)(service_name \<mapsto> stats)\<rparr>
      in case cb_redis_client cb1 of
           None \<Rightarrow> cb1
         | Some r \<Rightarrow>
             (case redis_call (hset service_name (hash_of_stats stats)) r of
                Inl r' \<Rightarrow> cb1\<lparr>cb_redis_client := Some r'\<rparr>
              | Inr (u, r') \<Rightarrow>
                  (case redis_call redis_noop r' of
                     Inl r'' \<Rightarrow> cb1\<lparr>cb_redis_client := Some r''\<rparr>
                   | Inr (u', r'') \<Rightarrow> cb1\<lparr>cb_redis_client := Some r''\<rparr>)))"

text \<open>
  \<^verbatim>\<open>can_proceed\<close>, the synchronous query: the answer and the breaker as the call leaves
  it.
\<close>

definition can_proceed ::
  "CircuitBreaker \<Rightarrow> string \<Rightarrow> CircuitBreakerConfig option \<Rightarrow> rat \<Rightarrow> bool \<times> CircuitBreaker" where
  "can_proceed cb service_name config now =
     (let config' = cb_config_for config service_name
      in case circuits cb service_name of
           None \<Rightarrow> (True, cb)
         | Some stats \<Rightarrow>
             (case state stats of
                CLOSED \<Rightarrow> (True, cb)
              | OPEN \<Rightarrow>
                  (case next_attempt_time stats of
                     Some t \<Rightarrow> if now \<ge> t then (True, cb) else (False, cb)
                   | None \<Rightarrow> (False, cb))
              | HALF_OPEN \<Rightarrow> (success_count stats < success_threshold config', cb)))"

text \<open>
  When the stats object in hand is the cached one, a mutation of it shows in
  \<^verbatim>\<open>self._circuits\<close> at once.
\<close>

definition write_through ::
  "bool \<Rightarrow> string \<Rightarrow> CircuitBreakerStats \<Rightarrow> CircuitBreaker \<Rightarrow> CircuitBreaker" where
  "write_through cached service_name stats cb =
     (if cached then cb\<lparr>circuits := (circuits cb)(service_name \<mapsto> stats)\<rparr> else cb)"

text \<open>
  \<^verbatim>\<open>_record_success\<close> and \<^verbatim>\<open>_record_failure\<close>: the update, then the save. \<open>cached\<close> says
  whether \<open>stats\<close> is the object of the local cache.
\<close>

definition priv_record_success ::
  "CircuitBreaker \<Rightarrow> string \<Rightarrow> bool \<Rightarrow> CircuitBreakerStats \<Rightarrow> CircuitBreakerConfig
     \<Rightarrow> rat \<Rightarrow> rat \<Rightarrow> (py_error + unit) \<times> CircuitBreaker" where
  "priv_record_success cb service_name cached stats config response_time now =
     (case record_success_update config response_time now stats of
        Inl (e, stats') \<Rightarrow> (Inl e, write_through cached service_name stats' cb)
      | Inr stats' \<Rightarrow> (Inr (), save_circuit_stats cb service_name stats'))"

definition priv_record_failure ::
  "CircuitBreaker \<Rightarrow> string \<Rightarrow> bool \<Rightarrow> CircuitBreakerStats \<Rightarrow> CircuitBreakerConfig
     \<Rightarrow> rat \<Rightarrow> rat \<Rightarrow> rat \<Rightarrow> (py_error + unit) \<times> CircuitBreaker" where
  "priv_record_failure cb service_name cached stats config response_time now utcnow =
     (case record_failure_update config response_time now utcnow stats of
        Inl (e, stats') \<Rightarrow> (Inl e, write_through cached service_name stats' cb)
      | Inr stats' \<Rightarrow> (Inr (), save_circuit_stats cb service_name stats'))"

text \<open>
  The public recorders: the table's configuration of the service, response time
  \<open>0.0\<close>.
\<close>

definition record_success ::
  "CircuitBreaker \<Rightarrow> string \<Rightarrow> rat \<Rightarrow> (py_error + unit) \<times> CircuitBreaker" where
  "record_success cb service_name now =
     (let config = cb_config_for None service_name
      in case priv_get_circuit_stats cb service_name of
           (stats, cached, cb1) \<Rightarrow>
             priv_record_success cb1 service_name cached stats config 0 now)"

definition record_failure ::
  "CircuitBreaker \<Rightarrow> string \<Rightarrow> rat \<Rightarrow> rat \<Rightarrow> (py_error + unit) \<times> CircuitBreaker" where
  "record_failure cb service_name now utcnow =
     (let config = cb_config_for None service_name
      in case priv_get_circuit_stats cb service_name of
           (stats, cached, cb1) \<Rightarrow>
             priv_record_failure cb1 service_name cached stats config 0 now utcnow)"

definition get_circuit_stats :: "CircuitBreaker \<Rightarrow> string \<Rightarrow> CircuitBreakerStats option" where
  "get_circuit_stats cb service_name = circuits cb service_name"

definition reset_circuit :: "CircuitBreaker \<Rightarrow> string \<Rightarrow> CircuitBreaker" where
  "reset_circuit cb service_name =
     save_circuit_stats cb service_name (new_CircuitBreakerStats CLOSED)"

text \<open>
  \<^verbatim>\<open>call_with_circuit_breaker\<close>. The protected function is given by what it does: it
  returns (\<open>func_ok\<close>) or raises. The readings of the clock during one call:
  \<open>t_check\<close> at the entry of \<^verbatim>\<open>_can_proceed_async\<close>; \<open>t_open\<close> inside
  \<^verbatim>\<open>_transition_to_open\<close> (reached at most once in a call); \<open>t_retry\<close> where
  \<^verbatim>\<open>retry_after\<close> is computed, from the float of \<^verbatim>\<open>total_seconds()\<close>; \<open>elapsed\<close>, the
  measured \<^verbatim>\<open>end_time - start_time\<close>, and \<open>t_record\<close> at the entry of the recorder. The
  check stands before the \<^verbatim>\<open>try\<close>, so what it raises reaches the caller and the
  function is not called. The recording of a success stands inside the \<^verbatim>\<open>try\<close>:
  should it raise, the handler measures again (\<open>elapsed_handler\<close>), records a failure
  on the same object (\<open>t_record_handler\<close>) and re-raises, unless the recording of the
  failure raises itself.
\<close>

record call_clock =
  t_check :: rat
  t_open :: rat
  t_retry :: rat
  elapsed :: rat
  t_record :: rat
  elapsed_handler :: rat
  t_record_handler :: rat

datatype call_error =
    CircuitBreakerException string int
  | FuncRaised
  | PyError py_error

definition call_with_circuit_breaker ::
  "CircuitBreaker \<Rightarrow> string \<Rightarrow> bool \<Rightarrow> CircuitBreakerConfig option \<Rightarrow> call_clock
     \<Rightarrow> (call_error + unit) \<times> CircuitBreaker" where
  "call_with_circuit_breaker cb service_name func_ok config clock =
     (let config' = cb_config_for config service_name
      in case priv_get_circuit_stats cb service_name of
           (stats, cached, cb1) \<Rightarrow>
             (case can_proceed_async config' (t_check clock) (t_open clock) stats of
                Inl (e, stats1) \<Rightarrow>
                  (Inl (PyError e), write_through cached service_name stats1 cb1)
              | Inr (proceed, stats1) \<Rightarrow>
                  let cb2 = write_through cached service_name stats1 cb1
                  in if \<not> proceed then
                       let retry_after =
                             (case next_attempt_time stats1 of
                                Some t \<Rightarrow> py_int (round_double (t - t_retry clock))
                              | None \<Rightarrow> timeout config')
                       in (Inl (CircuitBreakerException service_name retry_after), cb2)
                     else if func_ok then
                       (case record_success_update config' (elapsed clock) (t_record clock)
                               stats1 of
                          Inr stats2 \<Rightarrow> (Inr (), save_circuit_stats cb2 service_name stats2)
                        | Inl (e, stats2) \<Rightarrow>
                            (case priv_record_failure
                                    (write_through cached service_name stats2 cb2)
                                    service_name cached stats2 config'
                                    (elapsed_handler clock) (t_record_handler clock)
                                    (t_open clock) of
                               (Inl e', cb3) \<Rightarrow> (Inl (PyError e'), cb3)
                             | (Inr u, cb3) \<Rightarrow> (Inl (PyError e), cb3)))
                     else
                       (case priv_record_failure cb2 service_name cached stats1 config'
                               (elapsed clock) (t_record clock) (t_open clock) of
                          (Inl e, cb3) \<Rightarrow> (Inl (PyError e), cb3)
                        | (Inr u, cb3) \<Rightarrow> (Inl FuncRaised, cb3))))"

subsection \<open>Rate limiter: data model\<close>

datatype RateLimitStrategy = FIXED_WINDOW | SLIDING_WINDOW | TOKEN_BUCKET | LEAKY_BUCKET

record RateLimitConfig =
  strategy :: RateLimitStrategy
  requests_per_minute :: int
  requests_per_hour :: int
  requests_per_day :: int
  burst_limit :: int
  bucket_capacity :: int
  refill_rate :: rat
  leak_rate :: rat

definition RateLimitConfig_defaults :: RateLimitConfig where
  "RateLimitConfig_defaults =
     \<lparr>strategy = SLIDING_WINDOW, requests_per_minute = 100, requests_per_hour = 1000,
      requests_per_day = 10000, burst_limit = 20, bucket_capacity = 100,
      refill_rate = 1, leak_rate = 1 / 2\<rparr>"



text \<open>The table \<^verbatim>\<open>self.default_configs\<close> of the rate limiter, by user tier.\<close>

definition rl_basic_config :: RateLimitConfig where
  "rl_basic_config =
     RateLimitConfig_defaults
       \<lparr>requests_per_minute := 50, requests_per_hour := 500,
        requests_per_day := 5000, burst_limit := 10\<rparr>"

definition rl_default_config_args :: "(string \<times> RateLimitConfig) list" where
  "rl_default_config_args =
     [(''free'', RateLimitConfig_defaults
         \<lparr>requests_per_minute := 10, requests_per_hour := 100,
          requests_per_day := 1000, burst_limit := 5\<rparr>),
      (''basic'', rl_basic_config),
      (''premium'', RateLimitConfig_defaults
         \<lparr>requests_per_minute := 200, requests_per_hour := 2000,
          requests_per_day := 20000, burst_limit := 50\<rparr>),
      (''enterprise'', RateLimitConfig_defaults
         \<lparr>requests_per_minute := 1000, requests_per_hour := 10000,
          requests_per_day := 100000, burst_limit := 100\<rparr>)]"

definition rl_default_configs :: "string \<rightharpoonup> RateLimitConfig" where
  "rl_default_configs = map_of rl_default_config_args"

text \<open>
  \<^verbatim>\<open>if config is None: config = self.default_configs.get(user_tier,
  self.default_configs["basic"])\<close>.
\<close>

definition rl_config_for :: "RateLimitConfig option \<Rightarrow> string \<Rightarrow> RateLimitConfig" where
  "rl_config_for config user_tier =
     (case config of
        Some c \<Rightarrow> c
      | None \<Rightarrow>
          (case rl_default_configs user_tier of
             Some c \<Rightarrow> c
           | None \<Rightarrow> rl_basic_config))"

text \<open>
  \<^verbatim>\<open>reset_time\<close> is the point in time, in seconds, that the source computes on
  \<^verbatim>\<open>datetime\<close> values or hands as a float to \<^verbatim>\<open>datetime.utcfromtimestamp\<close>; the
  conversion is taken to succeed and its rounding to microseconds is left out.
\<close>

record RateLimitResult =
  allowed :: bool
  requests_remaining :: int
  reset_time :: rat
  retry_after :: "int option"

text \<open>
  An entry of \<^verbatim>\<open>self._local_cache\<close>. \<^verbatim>\<open>tokens\<close> starts as the integer
  \<^verbatim>\<open>bucket_capacity\<close> and \<^verbatim>\<open>volume\<close> as the integer 0.
\<close>

record cache_entry =
  requests :: "rat list"
  tokens :: py_num
  last_refill :: rat
  volume :: py_num
  last_leak :: rat

text \<open>
  The keys of the rate limiter in the store, each kind under its own prefix:
  \<^verbatim>\<open>rate_limit:fixed:{identifier}:{window_start}\<close>, a counter;
  \<^verbatim>\<open>rate_limit:sliding:{identifier}\<close>, a sorted set whose members are \<^verbatim>\<open>str(now)\<close> with
  score \<^verbatim>\<open>now\<close>, kept here as the list of its scores in ascending order, each once;
  \<^verbatim>\<open>rate_limit:token:{identifier}\<close>, a hash with the fields \<^verbatim>\<open>tokens\<close> and
  \<^verbatim>\<open>last_refill\<close>; \<^verbatim>\<open>rate_limit:leaky:{identifier}\<close>, a hash with \<^verbatim>\<open>volume\<close> and
  \<^verbatim>\<open>last_leak\<close>. A key that does not exist reads as \<open>None\<close>, the empty set, or the hash
  with no field. Numbers travel as text and come back as the same doubles: the client
  sends \<^verbatim>\<open>str\<close> of a float, and the store writes a number of a script with 17
  significant digits.
\<close>

record rl_db =
  fixed_counts :: "string \<times> rat \<Rightarrow> int option"
  sliding_sets :: "string \<Rightarrow> rat list"
  token_hashes :: "string \<Rightarrow> rat option \<times> rat option"
  leaky_hashes :: "string \<Rightarrow> rat option \<times> rat option"

definition empty_rl_db :: rl_db where
  "empty_rl_db =
     \<lparr>fixed_counts = (\<lambda>k. None), sliding_sets = (\<lambda>k. []),
      token_hashes = (\<lambda>k. (None, None)), leaky_hashes = (\<lambda>k. (None, None))\<rparr>"

record RateLimiter =
  rl_redis_client :: "rl_db redis option"
  local_cache :: "string \<rightharpoonup> cache_entry"

definition new_RateLimiter :: "rl_db redis option \<Rightarrow> RateLimiter" where
  "new_RateLimiter client = \<lparr>rl_redis_client = client, local_cache = Map.empty\<rparr>"

datatype log_entry = LogError string | LogWarning string | LogInfo string

text \<open>
  The readings of the clock during one check: \<open>t_now\<close> at the entry of the strategy's
  method (\<^verbatim>\<open>datetime.utcnow()\<close> for the fixed window, \<^verbatim>\<open>time.time()\<close> for the others),
  \<open>t_local\<close> at the entry of \<^verbatim>\<open>_local_cache_check\<close>, \<open>t_utcnow\<close> where a result takes its
  \<^verbatim>\<open>reset_time\<close> from \<^verbatim>\<open>datetime.utcnow()\<close> (an exception handler, or the last branch of
  \<^verbatim>\<open>_local_cache_check\<close>; a check reaches at most one of them).
\<close>

record rl_clock =
  t_now :: rat
  t_local :: rat
  t_utcnow :: rat

subsection \<open>Rate limiter: store commands\<close>

definition redis_get :: "string \<times> rat \<Rightarrow> rl_db \<Rightarrow> int option \<times> rl_db" where
  "redis_get key d = (fixed_counts d key, d)"

text \<open>The pipeline \<^verbatim>\<open>INCR key; EXPIRE key 60\<close>, executed as one transaction.\<close>

definition redis_incr_expire :: "string \<times> rat \<Rightarrow> rl_db \<Rightarrow> unit \<times> rl_db" where
  "redis_incr_expire key d =
     ((), d\<lparr>fixed_counts := (fixed_counts d)
              (key := Some ((case fixed_counts d key of Some n \<Rightarrow> n | None \<Rightarrow> 0) + 1))\<rparr>)"

text \<open>\<^verbatim>\<open>ZREMRANGEBYSCORE key -inf bound\<close> removes the members of score at most \<open>bound\<close>.\<close>

definition zremrangebyscore :: "string \<Rightarrow> rat \<Rightarrow> rl_db \<Rightarrow> unit \<times> rl_db" where
  "zremrangebyscore key bound d =
     ((), d\<lparr>sliding_sets := (sliding_sets d)
              (key := filter (\<lambda>score. \<not> score \<le> bound) (sliding_sets d key))\<rparr>)"

definition zcard :: "string \<Rightarrow> rl_db \<Rightarrow> int \<times> rl_db" where
  "zcard key d = (int (length (sliding_sets d key)), d)"

text \<open>\<^verbatim>\<open>ZRANGE key 0 0 WITHSCORES\<close>: the member of least score, if there is one.\<close>

definition zrange_first :: "string \<Rightarrow> rl_db \<Rightarrow> rat list \<times> rl_db" where
  "zrange_first key d = (take 1 (sliding_sets d key), d)"

text \<open>
  The pipeline \<^verbatim>\<open>ZADD key {str(now): now}; EXPIRE key 60\<close>. A member that is in the set
  already keeps its place.
\<close>

definition zadd_expire :: "string \<Rightarrow> rat \<Rightarrow> rl_db \<Rightarrow> unit \<times> rl_db" where
  "zadd_expire key now d =
     ((), d\<lparr>sliding_sets := (sliding_sets d)
              (key := (if now \<in> set (sliding_sets d key) then sliding_sets d key
                       else insort now (sliding_sets d key)))\<rparr>)"

text \<open>
  The Lua script of the token bucket, run by \<^verbatim>\<open>EVAL\<close> in one step. Lua numbers are
  doubles; \<open>capacity\<close> is \<^verbatim>\<open>tonumber\<close> of the text of the integer. Its reply is the
  table \<^verbatim>\<open>{flag, tokens, now}\<close>; the store converts a Lua number of a reply to an integer
  by truncation, so the client receives \<open>py_int tokens\<close>.
\<close>

definition lua_token_bucket ::
  "string \<Rightarrow> rat \<Rightarrow> rat \<Rightarrow> rat \<Rightarrow> rl_db \<Rightarrow> (int \<times> int \<times> int) \<times> rl_db" where
  "lua_token_bucket key capacity refill_rate' now d =
     (case token_hashes d key of
        (stored_tokens, stored_last_refill) \<Rightarrow>
          let tokens0 = (case stored_tokens of Some t \<Rightarrow> t | None \<Rightarrow> capacity);
              last_refill0 = (case stored_last_refill of Some t \<Rightarrow> t | None \<Rightarrow> now);
              time_elapsed = f_sub now last_refill0;
              tokens_to_add = f_mul time_elapsed refill_rate';
              tokens1 = min capacity (f_add tokens0 tokens_to_add)
          in if tokens1 < 1 then ((0, py_int tokens1, py_int now), d)
             else
               let tokens2 = f_sub tokens1 1
               in ((1, py_int tokens2, py_int now),
                   d\<lparr>token_hashes := (token_hashes d)(key := (Some tokens2, Some now))\<rparr>))"

text \<open>The Lua script of the leaky bucket.\<close>

definition lua_leaky_bucket ::
  "string \<Rightarrow> rat \<Rightarrow> rat \<Rightarrow> rat \<Rightarrow> rl_db \<Rightarrow> (int \<times> int \<times> int) \<times> rl_db" where
  "lua_leaky_bucket key capacity leak_rate' now d =
     (case leaky_hashes d key of
        (stored_volume, stored_last_leak) \<Rightarrow>
          let volume0 = (case stored_volume of Some v \<Rightarrow> v | None \<Rightarrow> 0);
              last_leak0 = (case stored_last_leak of Some t \<Rightarrow> t | None \<Rightarrow> now);
              time_elapsed = f_sub now last_leak0;
              volume_to_leak = f_mul time_elapsed leak_rate';
              volume1 = max 0 (f_sub volume0 volume_to_leak)
          in if volume1 \<ge> capacity then ((0, py_int volume1, py_int now), d)
             else
               let volume2 = f_add volume1 1
               in ((1, py_int volume2, py_int now),
                   d\<lparr>leaky_hashes := (leaky_hashes d)(key := (Some volume2, Some now))\<rparr>))"

subsection \<open>Rate limiter: the checks\<close>

definition set_entry :: "string \<Rightarrow> cache_entry \<Rightarrow> RateLimiter \<Rightarrow> RateLimiter" where
  "set_entry identifier entry rl = rl\<lparr>local_cache := (local_cache rl)(identifier \<mapsto> entry)\<rparr>"

text \<open>
  \<^verbatim>\<open>_local_cache_check\<close>. The entry is a dictionary mutated in place, so each branch
  returns the limiter with the entry as the branch leaves it, also when it raises:
  \<^verbatim>\<open>requests[0]\<close> of an empty list, and a division by a zero rate.
\<close>

definition local_cache_check ::
  "RateLimiter \<Rightarrow> string \<Rightarrow> RateLimitConfig \<Rightarrow> string \<Rightarrow> rl_clock
     \<Rightarrow> (py_error \<times> RateLimiter) + (RateLimitResult \<times> RateLimiter)" where
  "local_cache_check rl identifier config strategy_name clock =
     (let now = t_local clock;
          entry0 = (case local_cache rl identifier of
                      Some e \<Rightarrow> e
                    | None \<Rightarrow>
                        \<lparr>requests = [], tokens = PyInt (bucket_capacity config),
                         last_refill = now, volume = PyInt 0, last_leak = now\<rparr>)
      in if strategy_name = ''sliding'' then
           let reqs = filter (\<lambda>req_time. f_sub now req_time < 60) (requests entry0);
               entry1 = entry0\<lparr>requests := reqs\<rparr>
           in if int (length reqs) \<ge> requests_per_minute config then
                (case reqs of
                   [] \<Rightarrow> Inl (IndexError, set_entry identifier entry1 rl)
                 | oldest # later \<Rightarrow>
                     let retry = py_int (f_sub (f_add oldest 60) now)
                     in Inr (\<lparr>allowed = False, requests_remaining = 0,
                              reset_time = f_add now (float_of_int retry),
                              retry_after = Some retry\<rparr>,
                             set_entry identifier entry1 rl))
              else
                let entry2 = entry1\<lparr>requests := reqs @ [now]\<rparr>
                in Inr (\<lparr>allowed = True,
                         requests_remaining =
                           requests_per_minute config - int (length (requests entry2)),
                         reset_time = f_add now 60, retry_after = None\<rparr>,
                        set_entry identifier entry2 rl)
         else if strategy_name = ''token'' then
           let time_elapsed = f_sub now (last_refill entry0);
               tokens_to_add = f_mul time_elapsed (refill_rate config);
               entry1 = entry0\<lparr>tokens :=
                                 num_min (PyInt (bucket_capacity config))
                                   (PyFloat (f_add (to_float (tokens entry0)) tokens_to_add)),
                               last_refill := now\<rparr>
           in if num_val (tokens entry1) < 1 then
                if refill_rate config = 0
                then Inl (ZeroDivisionError, set_entry identifier entry1 rl)
                else
                  let retry = py_int (f_div 1 (refill_rate config))
                  in Inr (\<lparr>allowed = False, requests_remaining = 0,
                           reset_time = f_add now (float_of_int retry),
                           retry_after = Some retry\<rparr>,
                          set_entry identifier entry1 rl)
              else
                let entry2 = entry1\<lparr>tokens := num_sub (tokens entry1) (PyInt 1)\<rparr>
                in if refill_rate config = 0
                   then Inl (ZeroDivisionError, set_entry identifier entry2 rl)
                   else Inr (\<lparr>allowed = True, requests_remaining = num_int (tokens entry2),
                              reset_time =
                                f_add now
                                  (f_div (to_float (num_sub (PyInt (bucket_capacity config))
                                                            (tokens entry2)))
                                         (refill_rate config)),
                              retry_after = None\<rparr>,
                             set_entry identifier entry2 rl)
         else
           Inr (\<lparr>allowed = True, requests_remaining = requests_per_minute config,
                 reset_time = t_utcnow clock + 60, retry_after = None\<rparr>,
                set_entry identifier entry0 rl))"

text \<open>What every exception handler of the checks returns, with its log line.\<close>

definition fail_open ::
  "string \<Rightarrow> int \<Rightarrow> rat \<Rightarrow> RateLimiter \<Rightarrow> RateLimitResult \<times> RateLimiter \<times> log_entry list" where
  "fail_open message limit reset rl =
     (\<lparr>allowed = True, requests_remaining = limit, reset_time = reset, retry_after = None\<rparr>,
      rl, [LogError message])"

definition with_client :: "rl_db redis \<Rightarrow> RateLimiter \<Rightarrow> RateLimiter" where
  "with_client r rl = rl\<lparr>rl_redis_client := Some r\<rparr>"

text \<open>
  \<^verbatim>\<open>_fixed_window_check\<close>. \<^verbatim>\<open>now.replace(second=0, microsecond=0)\<close> is the start of the
  minute.
\<close>

definition fixed_window_check ::
  "RateLimiter \<Rightarrow> string \<Rightarrow> RateLimitConfig \<Rightarrow> rl_clock
     \<Rightarrow> RateLimitResult \<times> RateLimiter \<times> log_entry list" where
  "fixed_window_check rl identifier config clock =
     (let now = t_now clock;
          window_start = of_int (\<lfloor>now / 60\<rfloor> * 60);
          key = (identifier, window_start);
          handler = fail_open ''Fixed window rate limit check failed''
                      (requests_per_minute config) (now + 60)
      in case rl_redis_client rl of
           Some r \<Rightarrow>
             (case redis_call (redis_get key) r of
                Inl r1 \<Rightarrow> handler (with_client r1 rl)
              | Inr (reply, r1) \<Rightarrow>
                  let current_count = (case reply of Some n \<Rightarrow> n | None \<Rightarrow> 0)
                  in if current_count \<ge> requests_per_minute config then
                       (\<lparr>allowed = False, requests_remaining = 0,
                         reset_time = window_start + 60, retry_after = Some 60\<rparr>,
                        with_client r1 rl, [])
                     else
                       (case redis_call (redis_incr_expire key) r1 of
                          Inl r2 \<Rightarrow> handler (with_client r2 rl)
                        | Inr (u, r2) \<Rightarrow>
                            (\<lparr>allowed = True,
                              requests_remaining =
                                requests_per_minute config - current_count - 1,
                              reset_time = window_start + 60, retry_after = None\<rparr>,
                             with_client r2 rl, [])))
         | None \<Rightarrow>
             (case local_cache_check rl identifier config ''fixed'' clock of
                Inl (e, rl') \<Rightarrow> handler rl'
              | Inr (result, rl') \<Rightarrow> (result, rl', [])))"

text \<open>\<^verbatim>\<open>_sliding_window_check\<close>.\<close>

definition sliding_window_check ::
  "RateLimiter \<Rightarrow> string \<Rightarrow> RateLimitConfig \<Rightarrow> rl_clock
     \<Rightarrow> RateLimitResult \<times> RateLimiter \<times> log_entry list" where
  "sliding_window_check rl identifier config clock =
     (let now = t_now clock;
          window_start = f_sub now 60;
          handler = fail_open ''Sliding window rate limit check failed''
                      (requests_per_minute config) (t_utcnow clock + 60)
      in case rl_redis_client rl of
           Some r \<Rightarrow>
             (case redis_call (zremrangebyscore identifier window_start) r of
                Inl r1 \<Rightarrow> handler (with_client r1 rl)
              | Inr (u, r1) \<Rightarrow>
                  (case redis_call (zcard identifier) r1 of
                     Inl r2 \<Rightarrow> handler (with_client r2 rl)
                   | Inr (current_count, r2) \<Rightarrow>
                       if current_count \<ge> requests_per_minute config then
                         (case redis_call (zrange_first identifier) r2 of
                            Inl r3 \<Rightarrow> handler (with_client r3 rl)
                          | Inr (oldest, r3) \<Rightarrow>
                              let retry = (case oldest of
                                             score # others \<Rightarrow>
                                               py_int (f_sub (f_add score 60) now)
                                           | [] \<Rightarrow> 60)
                              in (\<lparr>allowed = False, requests_remaining = 0,
                                    reset_time = f_add now (float_of_int retry),
                                    retry_after = Some retry\<rparr>,
                                  with_client r3 rl, []))
                       else
                         (case redis_call (zadd_expire identifier now) r2 of
                            Inl r3 \<Rightarrow> handler (with_client r3 rl)
                          | Inr (u', r3) \<Rightarrow>
                              (\<lparr>allowed = True,
                                requests_remaining =
                                  requests_per_minute config - current_count - 1,
                                reset_time = f_add now 60, retry_after = None\<rparr>,
                               with_client r3 rl, []))))
         | None \<Rightarrow>
             (case local_cache_check rl identifier config ''sliding'' clock of
                Inl (e, rl') \<Rightarrow> handler rl'
              | Inr (result, rl') \<Rightarrow> (result, rl', [])))"

text \<open>\<^verbatim>\<open>_token_bucket_check\<close>.\<close>

definition token_bucket_check ::
  "RateLimiter \<Rightarrow> string \<Rightarrow> RateLimitConfig \<Rightarrow> rl_clock
     \<Rightarrow> RateLimitResult \<times> RateLimiter \<times> log_entry list" where
  "token_bucket_check rl identifier config clock =
     (let now = t_now clock;
          handler = fail_open ''Token bucket rate limit check failed''
                      (bucket_capacity config) (t_utcnow clock + 60)
      in case rl_redis_client rl of
           Some r \<Rightarrow>
             (case redis_call (lua_token_bucket identifier
                                 (float_of_int (bucket_capacity config))
                                 (refill_rate config) now) r of
                Inl r1 \<Rightarrow> handler (with_client r1 rl)
              | Inr ((flag, remaining_tokens, reply_now), r1) \<Rightarrow>
                  if flag = 0 then
                    if refill_rate config = 0 then handler (with_client r1 rl)
                    else
                      let retry = py_int (f_div 1 (refill_rate config))
                      in (\<lparr>allowed = False, requests_remaining = 0,
                            reset_time = f_add now (float_of_int retry),
                            retry_after = Some retry\<rparr>,
                          with_client r1 rl, [])
                  else if refill_rate config = 0 then handler (with_client r1 rl)
                  else
                    (\<lparr>allowed = True, requests_remaining = remaining_tokens,
                      reset_time =
                        f_add now (f_div (float_of_int (bucket_capacity config
                                                         - remaining_tokens))
                                         (refill_rate config)),
                      retry_after = None\<rparr>,
                     with_client r1 rl, []))
         | None \<Rightarrow>
             (case local_cache_check rl identifier config ''token'' clock of
                Inl (e, rl') \<Rightarrow> handler rl'
              | Inr (result, rl') \<Rightarrow> (result, rl', [])))"

text \<open>\<^verbatim>\<open>_leaky_bucket_check\<close>.\<close>

definition leaky_bucket_check ::
  "RateLimiter \<Rightarrow> string \<Rightarrow> RateLimitConfig \<Rightarrow> rl_clock
     \<Rightarrow> RateLimitResult \<times> RateLimiter \<times> log_entry list" where
  "leaky_bucket_check rl identifier config clock =
     (let now = t_now clock;
          handler = fail_open ''Leaky bucket rate limit check failed''
                      (bucket_capacity config) (t_utcnow clock + 60)
      in case rl_redis_client rl of
           Some r \<Rightarrow>
             (case redis_call (lua_leaky_bucket identifier
                                 (float_of_int (bucket_capacity config))
                                 (leak_rate config) now) r of
                Inl r1 \<Rightarrow> handler (with_client r1 rl)
              | Inr ((flag, current_volume, reply_now), r1) \<Rightarrow>
                  if flag = 0 then
                    if leak_rate config = 0 then handler (with_client r1 rl)
                    else
                      let retry = py_int (f_div 1 (leak_rate config))
                      in (\<lparr>allowed = False, requests_remaining = 0,
                            reset_time = f_add now (float_of_int retry),
                            retry_after = Some retry\<rparr>,
                          with_client r1 rl, [])
                  else if leak_rate config = 0 then handler (with_client r1 rl)
                  else
                    (\<lparr>allowed = True,
                      requests_remaining = bucket_capacity config - current_volume,
                      reset_time =
                        f_add now (f_div (float_of_int current_volume) (leak_rate config)),
                      retry_after = None\<rparr>,
                     with_client r1 rl, []))
         | None \<Rightarrow>
             (case local_cache_check rl identifier config ''leaky'' clock of
                Inl (e, rl') \<Rightarrow> handler rl'
              | Inr (result, rl') \<Rightarrow> (result, rl', [])))"

text \<open>
  \<^verbatim>\<open>check_rate_limit\<close>. The strategy is a member of the enum, so the final
  \<^verbatim>\<open>raise ValueError\<close> has no input.
\<close>

definition check_rate_limit ::
  "RateLimiter \<Rightarrow> string \<Rightarrow> RateLimitConfig option \<Rightarrow> string \<Rightarrow> rl_clock
     \<Rightarrow> RateLimitResult \<times> RateLimiter \<times> log_entry list" where
  "check_rate_limit rl identifier config user_tier clock =
     (let config' = rl_config_for config user_tier
      in case strategy config' of
           FIXED_WINDOW \<Rightarrow> fixed_window_check rl identifier config' clock
         | SLIDING_WINDOW \<Rightarrow> sliding_window_check rl identifier config' clock
         | TOKEN_BUCKET \<Rightarrow> token_bucket_check rl identifier config' clock
         | LEAKY_BUCKET \<Rightarrow> leaky_bucket_check rl identifier config' clock)"

text \<open>A run of checks of one identifier, one clock per check: the results in order.\<close>

fun check_sequence ::
  "RateLimiter \<Rightarrow> string \<Rightarrow> RateLimitConfig \<Rightarrow> rl_clock list
     \<Rightarrow> RateLimitResult list \<times> RateLimiter" where
  "check_sequence rl identifier config [] = ([], rl)"
| "check_sequence rl identifier config (clock # clocks) =
     (case check_rate_limit rl identifier (Some config) ''basic'' clock of
        (result, rl', logged) \<Rightarrow>
          (case check_sequence rl' identifier config clocks of
             (results, rl'') \<Rightarrow> (result # results, rl'')))"

text \<open>
  The limit that an exception handler of a check reports as \<^verbatim>\<open>requests_remaining\<close>:
  \<^verbatim>\<open>requests_per_minute\<close> in the two window checks, \<^verbatim>\<open>bucket_capacity\<close> in the two
  bucket checks.
\<close>

definition limit_of :: "RateLimitConfig \<Rightarrow> int" where
  "limit_of c =
     (case strategy c of
        FIXED_WINDOW \<Rightarrow> requests_per_minute c
      | SLIDING_WINDOW \<Rightarrow> requests_per_minute c
      | TOKEN_BUCKET \<Rightarrow> bucket_capacity c
      | LEAKY_BUCKET \<Rightarrow> bucket_capacity c)"

subsection \<open>Example runs\<close>

text \<open>
  A breaker without store. The service \<^verbatim>\<open>trading\<close> (failure threshold 3, timeout 30 s,
  success threshold 3) fails three times, at the seconds 0, 1 and 2.
\<close>

definition local_breaker :: CircuitBreaker where
  "local_breaker = new_CircuitBreaker None"

definition two_failures :: CircuitBreaker where
  "two_failures =
     snd (record_failure (snd (record_failure local_breaker ''trading'' 0 0)) ''trading'' 1 1)"

definition three_failures :: CircuitBreaker where
  "three_failures = snd (record_failure two_failures ''trading'' 2 2)"

text \<open>
  A protected call during which every reading of the clock gives the second \<open>t\<close>, so
  that its measured duration is 0.
\<close>

definition call_at :: "rat \<Rightarrow> call_clock" where
  "call_at t =
     \<lparr>t_check = t, t_open = t, t_retry = t, elapsed = 0, t_record = t,
      elapsed_handler = 0, t_record_handler = t\<rparr>"

text \<open>
  After the timeout, four protected calls of a function that returns, at the seconds
  33 to 36.
\<close>

definition after_check_33 :: CircuitBreaker where
  "after_check_33 =
     snd (call_with_circuit_breaker three_failures ''trading'' True None (call_at 33))"

definition after_two_successes :: CircuitBreaker where
  "after_two_successes =
     snd (call_with_circuit_breaker
            (snd (call_with_circuit_breaker after_check_33 ''trading'' True None (call_at 34)))
            ''trading'' True None (call_at 35))"

definition after_third_success :: CircuitBreaker where
  "after_third_success =
     snd (call_with_circuit_breaker after_two_successes ''trading'' True None (call_at 36))"

text \<open>
  A breaker with a working store, empty at first. A protected call with a
  configuration of failure threshold 1 fails at second 0; a success is recorded at
  second 1; the circuit is reset; a success is recorded at second 2.
\<close>

definition store_breaker :: CircuitBreaker where
  "store_breaker = new_CircuitBreaker (Some \<lparr>faults = [], db = empty_cb_db\<rparr>)"

definition threshold_one :: CircuitBreakerConfig where
  "threshold_one = CircuitBreakerConfig_defaults\<lparr>failure_threshold := 1\<rparr>"

definition opened_in_cache :: CircuitBreaker where
  "opened_in_cache =
     snd (call_with_circuit_breaker store_breaker ''trading'' False (Some threshold_one)
            (call_at 0))"

definition open_in_store :: CircuitBreaker where
  "open_in_store = snd (record_success opened_in_cache ''trading'' 1)"

definition after_reset :: CircuitBreaker where
  "after_reset = reset_circuit open_in_store ''trading''"

definition after_reset_and_success :: CircuitBreaker where
  "after_reset_and_success = snd (record_success after_reset ''trading'' 2)"

text \<open>Ten recorded calls of which six failed.\<close>

definition six_of_ten :: "(bool \<times> rat \<times> rat \<times> rat) list" where
  "six_of_ten =
     [(False, 0, 1, 1), (True, 0, 2, 2), (False, 0, 3, 3), (True, 0, 4, 4), (False, 0, 5, 5),
      (True, 0, 6, 6), (False, 0, 7, 7), (True, 0, 8, 8), (False, 0, 9, 9), (False, 0, 10, 10)]"

text \<open>A check during which every reading of the clock gives the same second \<open>t\<close>.\<close>

definition at_time :: "rat \<Rightarrow> rl_clock" where
  "at_time t = \<lparr>t_now = t, t_local = t, t_utcnow = t\<rparr>"

text \<open>
  Five requests per minute under the sliding window (the default strategy); a token
  bucket of capacity 1 that refills one token per second; the same bucket after the
  assignment \<^verbatim>\<open>config.refill_rate = 0\<close>.
\<close>

definition five_per_minute :: RateLimitConfig where
  "five_per_minute = RateLimitConfig_defaults\<lparr>requests_per_minute := 5\<rparr>"

definition one_token :: RateLimitConfig where
  "one_token = RateLimitConfig_defaults\<lparr>strategy := TOKEN_BUCKET, bucket_capacity := 1\<rparr>"


text \<open>
  A limiter without a store, one with a working store, and one whose store raises at
  each of the next six calls.
\<close>

definition local_limiter :: RateLimiter where
  "local_limiter = new_RateLimiter None"

definition up_limiter :: RateLimiter where
  "up_limiter = new_RateLimiter (Some \<lparr>faults = [], db = empty_rl_db\<rparr>)"

definition down_limiter :: RateLimiter where
  "down_limiter = new_RateLimiter (Some \<lparr>faults = replicate 6 True, db = empty_rl_db\<rparr>)"

text \<open>
  Six checks an eighth of a second apart; five such checks and a sixth half a minute
  after the first; the same with the sixth check 59.5 s after the first. All the times
  are doubles.
\<close>

definition six_in_a_second :: "rl_clock list" where
  "six_in_a_second =
     [at_time 0, at_time (1 / 8), at_time (2 / 8), at_time (3 / 8), at_time (4 / 8),
      at_time (5 / 8)]"

definition sixth_at_30 :: "rl_clock list" where
  "sixth_at_30 =
     [at_time 0, at_time (1 / 8), at_time (2 / 8), at_time (3 / 8), at_time (4 / 8),
      at_time 30]"

definition sixth_at_59_5 :: "rl_clock list" where
  "sixth_at_59_5 =
     [at_time 0, at_time (1 / 8), at_time (2 / 8), at_time (3 / 8), at_time (4 / 8),
      at_time (119 / 2)]"

section \<open>Properties\<close>

subsection \<open>Rounding to doubles is monotone\<close>

lemma bitlen_powi_bounds:
  assumes "0 < a"
  shows "(2::rat) powi (bitlen a - 1) \<le> of_int a" "of_int a < (2::rat) powi (bitlen a)"
proof -
  from bitlen_bounds [OF assms]
  have b: "2 ^ nat (bitlen a - 1) \<le> a" "a < 2 ^ nat (bitlen a)" by auto
  have pos: "1 \<le> bitlen a"
    using assms bitlen_ge_iff_power [of 1 a] by simp
  have "(2::rat) powi (bitlen a - 1) = 2 ^ nat (bitlen a - 1)"
    using pos by (simp add: power_int_def)
  also have "\<dots> = of_int (2 ^ nat (bitlen a - 1))" by simp
  also have "\<dots> \<le> of_int a" using b(1) by (simp only: of_int_le_iff)
  finally show "(2::rat) powi (bitlen a - 1) \<le> of_int a" .
  have "of_int a < (of_int (2 ^ nat (bitlen a)) :: rat)"
    using b(2) by (simp only: of_int_less_iff)
  also have "\<dots> = 2 powi (bitlen a)"
    using pos by (simp add: power_int_def)
  finally show "of_int a < (2::rat) powi (bitlen a)" .
qed

lemma ilog2_bounds:
  assumes "0 < x"
  shows "2 powi (ilog2 x) \<le> x" "x < 2 powi (ilog2 x + 1)"
proof -
  obtain a b where q: "quotient_of x = (a, b)" by (cases "quotient_of x")
  then have x: "x = of_int a / of_int b" and b: "0 < b"
    by (simp_all add: quotient_of_div quotient_of_denom_pos)
  have a: "0 < a"
    using assms x b by (simp add: zero_less_divide_iff)
  let ?d = "bitlen a - bitlen b"
  have lo: "(2::rat) powi (?d - 1) < x"
  proof -
    have "(2::rat) powi (?d - 1) = 2 powi (bitlen a - 1) / 2 powi (bitlen b)"
      by (simp add: power_int_diff)
    also have "\<dots> \<le> of_int a / 2 powi (bitlen b)"
      using bitlen_powi_bounds(1) [OF a] by (simp add: divide_right_mono)
    also have "\<dots> < of_int a / of_int b"
      using bitlen_powi_bounds(2) [OF b] a b by (simp add: divide_strict_left_mono)
    finally show ?thesis using x by simp
  qed
  have hi: "x < (2::rat) powi (?d + 1)"
  proof -
    have "x = of_int a / of_int b" by (rule x)
    also have "\<dots> < 2 powi (bitlen a) / of_int b"
      using bitlen_powi_bounds(2) [OF a] b by (simp add: divide_strict_right_mono)
    also have "\<dots> \<le> 2 powi (bitlen a) / 2 powi (bitlen b - 1)"
      using bitlen_powi_bounds(1) [OF b] b by (simp add: divide_left_mono)
    also have "\<dots> = 2 powi (?d + 1)"
      by (simp add: power_int_diff [symmetric] algebra_simps)
    finally show ?thesis .
  qed
  show "2 powi (ilog2 x) \<le> x"
    using lo q by (simp add: ilog2_def Let_def)
  show "x < 2 powi (ilog2 x + 1)"
    using hi q by (auto simp add: ilog2_def Let_def not_le)
qed

lemma ilog2_mono:
  assumes "0 < x" "x \<le> y"
  shows "ilog2 x \<le> ilog2 y"
proof -
  have "(2::rat) powi (ilog2 x) < 2 powi (ilog2 y + 1)"
    using ilog2_bounds(1) [OF assms(1)] ilog2_bounds(2) [of y] assms by simp
  then have "ilog2 x < ilog2 y + 1"
    by (metis not_less power_int_increasing one_le_numeral)
  then show ?thesis by simp
qed

lemma round_half_even_of_int [simp]: "round_half_even (of_int n) = n"
  by (simp add: round_half_even_def)

lemma round_half_even_mono:
  assumes "x \<le> y"
  shows "round_half_even x \<le> round_half_even y"
proof (cases "\<lfloor>x\<rfloor> = \<lfloor>y\<rfloor>")
  case True
  then show ?thesis using assms
    by (auto simp add: round_half_even_def Let_def)
next
  case False
  then have lt: "\<lfloor>x\<rfloor> + 1 \<le> \<lfloor>y\<rfloor>"
    using floor_mono [OF assms] by linarith
  have "round_half_even x \<le> \<lfloor>x\<rfloor> + 1"
    by (auto simp add: round_half_even_def Let_def)
  moreover have "\<lfloor>y\<rfloor> \<le> round_half_even y"
    by (auto simp add: round_half_even_def Let_def)
  ultimately show ?thesis using lt by linarith
qed

lemma round_half_even_ge: "of_int a \<le> x \<Longrightarrow> a \<le> round_half_even x"
  using round_half_even_mono [of "of_int a" x] by simp

lemma round_half_even_le: "x \<le> of_int b \<Longrightarrow> round_half_even x \<le> b"
  using round_half_even_mono [of x "of_int b"] by simp

lemma round_double_pos:
  "0 < x \<Longrightarrow> round_double x
     = 2 powi (dexp x - 52) * of_int (round_half_even (x / 2 powi (dexp x - 52)))"
  by (simp add: round_double_def Let_def)

lemma round_double_minus: "round_double (- x) = - round_double x"
  by (simp add: round_double_def Let_def sgn_minus)

lemma round_double_zero [simp]: "round_double 0 = 0"
  by (simp add: round_double_def)

lemma round_double_nonneg:
  assumes "0 < x" shows "0 \<le> round_double x"
proof -
  have "0 \<le> x / 2 powi (dexp x - 52)" using assms by simp
  then have "0 \<le> round_half_even (x / 2 powi (dexp x - 52))"
    using round_half_even_ge [of 0] by simp
  then show ?thesis using assms by (simp add: round_double_pos)
qed

lemma round_double_upper:
  assumes "0 < x" shows "round_double x \<le> 2 powi (dexp x + 1)"
proof -
  let ?q = "(2::rat) powi (dexp x - 52)"
  have q: "0 < ?q" by simp
  have "x < 2 powi (ilog2 x + 1)" using ilog2_bounds(2) [OF assms] .
  also have "\<dots> \<le> 2 powi (dexp x + 1)"
    by (rule power_int_increasing) (simp_all add: dexp_def)
  finally have "x / ?q \<le> 2 powi (dexp x + 1) / ?q"
    using q by (simp add: divide_right_mono)
  also have "2 powi (dexp x + 1) / ?q = (2::rat) powi 53"
    by (simp add: power_int_diff [symmetric])
  also have "\<dots> = of_int (2 ^ 53)" by simp
  finally have "round_half_even (x / ?q) \<le> 2 ^ 53"
    by (rule round_half_even_le)
  then have "(of_int (round_half_even (x / ?q)) :: rat) \<le> of_int (2 ^ 53)"
    by (simp only: of_int_le_iff)
  then have "?q * of_int (round_half_even (x / ?q)) \<le> ?q * 2 powi 53"
    using q by simp
  also have "?q * 2 powi 53 = 2 powi (dexp x - 52 + 53)"
    by (rule power_int_add [symmetric]) simp
  also have "dexp x - 52 + 53 = dexp x + 1" by simp
  finally show ?thesis using assms by (simp add: round_double_pos)
qed

lemma round_double_lower:
  assumes "0 < x" "- 1022 \<le> ilog2 x" shows "2 powi (dexp x) \<le> round_double x"
proof -
  let ?q = "(2::rat) powi (dexp x - 52)"
  have q: "0 < ?q" by simp
  have d: "dexp x = ilog2 x" using assms(2) by (simp add: dexp_def)
  have "2 powi (dexp x) / ?q \<le> x / ?q"
    using ilog2_bounds(1) [OF assms(1)] d q by (simp add: divide_right_mono)
  moreover have "2 powi (dexp x) / ?q = (2::rat) powi 52"
    by (simp add: power_int_diff [symmetric])
  moreover have "(2::rat) powi 52 = of_int (2 ^ 52)" by simp
  ultimately have "of_int (2 ^ 52) \<le> x / ?q" by simp
  then have "2 ^ 52 \<le> round_half_even (x / ?q)"
    by (rule round_half_even_ge)
  then have "(of_int (2 ^ 52) :: rat) \<le> of_int (round_half_even (x / ?q))"
    by (simp only: of_int_le_iff)
  then have step: "?q * 2 powi 52 \<le> ?q * of_int (round_half_even (x / ?q))"
    using q by simp
  have "dexp x = dexp x - 52 + 52" by simp
  then have "(2::rat) powi (dexp x) = 2 powi (dexp x - 52 + 52)" by simp
  also have "\<dots> = ?q * 2 powi 52"
    by (rule power_int_add) simp
  also note step
  finally show ?thesis using assms by (simp add: round_double_pos)
qed

lemma round_double_mono_pos:
  assumes "0 < x" "x \<le> y"
  shows "round_double x \<le> round_double y"
proof -
  have y: "0 < y" using assms by simp
  have le: "dexp x \<le> dexp y"
    using ilog2_mono [OF assms] by (simp add: dexp_def)
  show ?thesis
  proof (cases "dexp x = dexp y")
    case True
    let ?q = "(2::rat) powi (dexp y - 52)"
    have "x / ?q \<le> y / ?q" using assms by (simp add: divide_right_mono)
    then have "round_half_even (x / ?q) \<le> round_half_even (y / ?q)"
      by (rule round_half_even_mono)
    then have "?q * of_int (round_half_even (x / ?q)) \<le> ?q * of_int (round_half_even (y / ?q))"
      by simp
    then show ?thesis using assms y True by (simp add: round_double_pos)
  next
    case False
    then have lt: "dexp x + 1 \<le> dexp y" using le by simp
    then have "- 1022 \<le> ilog2 y" "- 1022 < dexp y"
      by (auto simp add: dexp_def)
    then have "2 powi (dexp y) \<le> round_double y"
      using round_double_lower [OF y] by simp
    moreover have "(2::rat) powi (dexp x + 1) \<le> 2 powi (dexp y)"
      using lt by (intro power_int_increasing) simp_all
    ultimately show ?thesis using round_double_upper [OF assms(1)] by linarith
  qed
qed

lemma round_double_mono:
  assumes "x \<le> y"
  shows "round_double x \<le> round_double y"
proof -
  consider "0 < x" | "x \<le> 0" "0 < y" | "x < 0" "y \<le> 0" "y < 0" | "x \<le> 0" "y = 0" | "x = 0" "y \<le> 0"
    using assms by linarith
  then show ?thesis
  proof cases
    case 1
    then show ?thesis using assms by (rule round_double_mono_pos)
  next
    case 2
    have "round_double x \<le> 0"
    proof (cases "x = 0")
      case True then show ?thesis by simp
    next
      case False
      then have "0 < - x" using 2 by simp
      from round_double_nonneg [OF this] show ?thesis by (simp add: round_double_minus)
    qed
    then show ?thesis using round_double_nonneg [OF 2(2)] by linarith
  next
    case 3
    then have "0 < - y" "- y \<le> - x" using assms by simp_all
    from round_double_mono_pos [OF this] show ?thesis by (simp add: round_double_minus)
  next
    case 4
    show ?thesis
    proof (cases "x = 0")
      case True then show ?thesis using 4 by simp
    next
      case False
      then have "0 < - x" using 4 by simp
      from round_double_nonneg [OF this] show ?thesis using 4 by (simp add: round_double_minus)
    qed
  next
    case 5
    then show ?thesis using assms by simp
  qed
qed

subsection \<open>Configuration\<close>


lemma tenth_le_one: "round_double (1 / 10) \<le> 1"
  by code_simp


lemma tenth_le_eight_tenths: "round_double (1 / 10) \<le> round_double (4 / 5)"
  by code_simp

lemma eight_tenths_le_one: "round_double (4 / 5) \<le> 1"
  by code_simp

lemma CircuitBreakerConfig_violations_Nil:
  "CircuitBreakerConfig_violations c = [] \<longleftrightarrow>
     1 \<le> failure_threshold c \<and> 1 \<le> success_threshold c \<and> 1 \<le> timeout c
   \<and> round_double (1 / 10) \<le> slow_call_duration_threshold c
   \<and> round_double (1 / 10) \<le> slow_call_rate_threshold c \<and> slow_call_rate_threshold c \<le> 1
   \<and> 1 \<le> minimum_number_of_calls c \<and> 10 \<le> sliding_window_size c
   \<and> 1 \<le> max_wait_duration_in_half_open c"
  by (auto simp add: CircuitBreakerConfig_violations_def)

lemma new_CircuitBreakerConfig_Inr:
  "new_CircuitBreakerConfig c = Inr c' \<longleftrightarrow> c' = c \<and> CircuitBreakerConfig_violations c = []"
  by (auto simp add: new_CircuitBreakerConfig_def split: list.splits)





text \<open>Every entry of the two default tables passes its constructor.\<close>

lemma cb_default_configs_valid:
  "\<forall>(name, c) \<in> set cb_default_config_args. new_CircuitBreakerConfig c = Inr c"
  by (simp add: cb_default_config_args_def new_CircuitBreakerConfig_Inr
        CircuitBreakerConfig_violations_Nil CircuitBreakerConfig_defaults_def
        tenth_le_eight_tenths eight_tenths_le_one order_trans [OF tenth_le_one])


lemma cb_config_for_None_valid:
  "new_CircuitBreakerConfig (cb_config_for None service_name)
     = Inr (cb_config_for None service_name)"
proof (cases "cb_default_configs service_name")
  case None
  then show ?thesis
    by (simp add: cb_config_for_def new_CircuitBreakerConfig_Inr
        CircuitBreakerConfig_violations_Nil CircuitBreakerConfig_defaults_def
        tenth_le_eight_tenths eight_tenths_le_one order_trans [OF tenth_le_one])
next
  case (Some c)
  then have "(service_name, c) \<in> set cb_default_config_args"
    by (simp add: cb_default_configs_def map_of_SomeD)
  with cb_default_configs_valid Some show ?thesis
    by (auto simp add: cb_config_for_def)
qed







subsection \<open>Circuit breaker: one stats object\<close>

lemma half_le_six_tenths: "1 \<le> round_double (3 / 5) * 2"
  by code_simp

text \<open>
  While the window is not exceeded and the state is not HalfOpen, a recorded success
  only counts, and a recorded failure counts and moves a Closed object to Open once the
  failure count reaches the threshold.
\<close>

lemma record_success_update_plain:
  assumes "0 \<le> total_requests s" "total_requests s + 1 \<le> sliding_window_size c"
    "state s \<noteq> HALF_OPEN"
  shows "state (stats_left (record_success_update c rt now s)) = state s"
    "failure_count (stats_left (record_success_update c rt now s)) = failure_count s"
    "total_requests (stats_left (record_success_update c rt now s)) = total_requests s + 1"
    "failed_requests (stats_left (record_success_update c rt now s)) = failed_requests s"
  using assms
  by (simp_all add: record_success_update_def update_average_def Let_def stats_left_def)

lemma record_failure_update_plain:
  assumes "0 \<le> total_requests s" "total_requests s + 1 \<le> sliding_window_size c"
    "state s \<noteq> HALF_OPEN"
  shows "state (stats_left (record_failure_update c rt now u s))
           = (if state s = CLOSED \<and> failure_threshold c \<le> failure_count s + 1
              then OPEN else state s)"
    "failure_count (stats_left (record_failure_update c rt now u s)) = failure_count s + 1"
    "total_requests (stats_left (record_failure_update c rt now u s)) = total_requests s + 1"
    "failed_requests (stats_left (record_failure_update c rt now u s)) = failed_requests s + 1"
  using assms
  by (simp_all add: record_failure_update_def update_average_def Let_def stats_left_def
        transition_to_open_def send_circuit_alert_def)

lemma record_outcomes_plain:
  assumes "0 \<le> total_requests s"
    "total_requests s + int (length os) \<le> sliding_window_size c"
    "state s \<noteq> HALF_OPEN"
    "state s = OPEN \<longleftrightarrow> failure_threshold c \<le> failure_count s"
  shows "state (record_outcomes c os s) \<noteq> HALF_OPEN
       \<and> (state (record_outcomes c os s) = OPEN
            \<longleftrightarrow> failure_threshold c \<le> failure_count (record_outcomes c os s))
       \<and> failure_count (record_outcomes c os s)
           = failure_count s + int (length (filter (\<lambda>x. \<not> fst x) os))
       \<and> total_requests (record_outcomes c os s) = total_requests s + int (length os)
       \<and> failed_requests (record_outcomes c os s)
           = failed_requests s + int (length (filter (\<lambda>x. \<not> fst x) os))"
  using assms
proof (induction os arbitrary: s)
  case Nil
  then show ?case by simp
next
  case (Cons x xs)
  obtain ok rt now u where x: "x = (ok, rt, now, u)" by (cases x) auto
  have len: "total_requests s + 1 \<le> sliding_window_size c"
    using Cons.prems(2) by simp
  show ?case
  proof (cases ok)
    case True
    let ?s1 = "stats_left (record_success_update c rt now s)"
    note s1 = record_success_update_plain [OF Cons.prems(1) len Cons.prems(3), of rt now]
    have "state (record_outcomes c xs ?s1) \<noteq> HALF_OPEN
       \<and> (state (record_outcomes c xs ?s1) = OPEN
            \<longleftrightarrow> failure_threshold c \<le> failure_count (record_outcomes c xs ?s1))
       \<and> failure_count (record_outcomes c xs ?s1)
           = failure_count ?s1 + int (length (filter (\<lambda>x. \<not> fst x) xs))
       \<and> total_requests (record_outcomes c xs ?s1) = total_requests ?s1 + int (length xs)
       \<and> failed_requests (record_outcomes c xs ?s1)
           = failed_requests ?s1 + int (length (filter (\<lambda>x. \<not> fst x) xs))"
      using Cons.prems s1 by (intro Cons.IH) auto
    then show ?thesis using s1 x True by auto
  next
    case False
    let ?s1 = "stats_left (record_failure_update c rt now u s)"
    note s1 = record_failure_update_plain [OF Cons.prems(1) len Cons.prems(3), of rt now u]
    have st: "state ?s1 \<noteq> HALF_OPEN"
      "state ?s1 = OPEN \<longleftrightarrow> failure_threshold c \<le> failure_count ?s1"
      using s1 Cons.prems(3,4) by (cases "state s"; auto)+
    have "state (record_outcomes c xs ?s1) \<noteq> HALF_OPEN
       \<and> (state (record_outcomes c xs ?s1) = OPEN
            \<longleftrightarrow> failure_threshold c \<le> failure_count (record_outcomes c xs ?s1))
       \<and> failure_count (record_outcomes c xs ?s1)
           = failure_count ?s1 + int (length (filter (\<lambda>x. \<not> fst x) xs))
       \<and> total_requests (record_outcomes c xs ?s1) = total_requests ?s1 + int (length xs)
       \<and> failed_requests (record_outcomes c xs ?s1)
           = failed_requests ?s1 + int (length (filter (\<lambda>x. \<not> fst x) xs))"
      using Cons.prems s1(3) st by (intro Cons.IH) auto
    then show ?thesis using s1 x False by auto
  qed
qed

text \<open>
  Claim C1, as the code has it. With \<open>minimum_number_of_calls = 10\<close>, on the stats
  object of a fresh Closed circuit: three recorded failures out of three calls leave the
  object Closed exactly when \<open>failure_threshold\<close> is above 3, and leave it Open when it
  is 3 or less, since \<^verbatim>\<open>_record_failure\<close> opens on the count of failures whatever the
  sample size. After ten recorded calls of which six failed, the object is Open already
  when \<open>failure_threshold \<le> 6\<close>; otherwise it is still Closed, and the next
  \<^verbatim>\<open>_can_proceed_async\<close> finds the failure rate at least one half, leaves the object
  Open and does not allow the call.
\<close>

theorem C1_circuit_threshold:
  assumes valid: "new_CircuitBreakerConfig c = Inr c"
    and mincalls: "minimum_number_of_calls c = 10"
  shows "(state (record_outcomes c [(False, r1, n1, u1), (False, r2, n2, u2), (False, r3, n3, u3)]
                  (new_CircuitBreakerStats CLOSED)) = CLOSED \<longleftrightarrow> 3 < failure_threshold c)
       \<and> (state (record_outcomes c [(False, r1, n1, u1), (False, r2, n2, u2), (False, r3, n3, u3)]
                  (new_CircuitBreakerStats CLOSED)) = OPEN \<longleftrightarrow> failure_threshold c \<le> 3)
       \<and> (length os = 10 \<and> length (filter (\<lambda>x. \<not> fst x) os) = 6 \<longrightarrow>
            total_requests (record_outcomes c os (new_CircuitBreakerStats CLOSED)) = 10
          \<and> failed_requests (record_outcomes c os (new_CircuitBreakerStats CLOSED)) = 6
          \<and> (if failure_threshold c \<le> 6
             then state (record_outcomes c os (new_CircuitBreakerStats CLOSED)) = OPEN
             else state (record_outcomes c os (new_CircuitBreakerStats CLOSED)) = CLOSED
                \<and> state (stats_left_by_check
                     (can_proceed_async c now u
                        (record_outcomes c os (new_CircuitBreakerStats CLOSED)))) = OPEN
                \<and> (\<forall>s'. can_proceed_async c now u
                           (record_outcomes c os (new_CircuitBreakerStats CLOSED))
                         \<noteq> Inr (True, s'))))"
proof -
  let ?fresh = "new_CircuitBreakerStats CLOSED"
  have bounds: "1 \<le> failure_threshold c" "10 \<le> sliding_window_size c"
    using valid by (simp_all add: new_CircuitBreakerConfig_Inr CircuitBreakerConfig_violations_Nil)
  have fresh: "0 \<le> total_requests ?fresh" "state ?fresh \<noteq> HALF_OPEN"
    "state ?fresh = OPEN \<longleftrightarrow> failure_threshold c \<le> failure_count ?fresh"
    "total_requests ?fresh = 0" "failed_requests ?fresh = 0" "failure_count ?fresh = 0"
    using bounds by (simp_all add: new_CircuitBreakerStats_def)
  let ?three = "[(False, r1, n1, u1), (False, r2, n2, u2), (False, r3, n3, u3)]"
  let ?s = "record_outcomes c ?three ?fresh"
  have "total_requests ?fresh + int (length ?three) \<le> sliding_window_size c"
    using bounds fresh(4) by simp
  from record_outcomes_plain [OF fresh(1) this fresh(2,3)]
  have s: "state ?s \<noteq> HALF_OPEN"
    "state ?s = OPEN \<longleftrightarrow> failure_threshold c \<le> failure_count ?s"
    "failure_count ?s = 3" using fresh(6) by auto
  have part1: "(state ?s = CLOSED \<longleftrightarrow> 3 < failure_threshold c)
             \<and> (state ?s = OPEN \<longleftrightarrow> failure_threshold c \<le> 3)"
    using s by (cases "state ?s") auto
  let ?t = "record_outcomes c os ?fresh"
  have part2: "total_requests ?t = 10 \<and> failed_requests ?t = 6
               \<and> (if failure_threshold c \<le> 6 then state ?t = OPEN
                   else state ?t = CLOSED
                      \<and> state (stats_left_by_check (can_proceed_async c now u ?t)) = OPEN
                      \<and> (\<forall>s'. can_proceed_async c now u ?t \<noteq> Inr (True, s')))"
    if len: "length os = 10" and six: "length (filter (\<lambda>x. \<not> fst x) os) = 6"
  proof -
    have "total_requests ?fresh + int (length os) \<le> sliding_window_size c"
      using bounds fresh(4) len by simp
    from record_outcomes_plain [OF fresh(1) this fresh(2,3)]
    have t: "state ?t \<noteq> HALF_OPEN"
      "state ?t = OPEN \<longleftrightarrow> failure_threshold c \<le> failure_count ?t"
      "failure_count ?t = 6" "total_requests ?t = 10" "failed_requests ?t = 6"
      using fresh(4,5,6) len six by auto
    have "state (stats_left_by_check (can_proceed_async c now u ?t)) = OPEN
          \<and> (\<forall>s'. can_proceed_async c now u ?t \<noteq> Inr (True, s'))"
      if "state ?t = CLOSED"
      using that t(4,5) mincalls half_le_six_tenths
      by (simp add: can_proceed_async_def Let_def transition_to_open_def
            send_circuit_alert_def stats_left_by_check_def)
    then show ?thesis using t by (cases "state ?t") auto
  qed
  show ?thesis using part1 part2 by blast
qed

theorem C1_circuit_threshold_witness:
  "new_CircuitBreakerConfig (cb_config_for None ''compliance'')
     = Inr (cb_config_for None ''compliance'')
 \<and> minimum_number_of_calls (cb_config_for None ''compliance'') = 10
 \<and> state (record_outcomes (cb_config_for None ''compliance'')
            [(False, 0, 1, 1), (False, 0, 2, 2), (False, 0, 3, 3)]
            (new_CircuitBreakerStats CLOSED)) = CLOSED
 \<and> length six_of_ten = 10 \<and> length (filter (\<lambda>x. \<not> fst x) six_of_ten) = 6
 \<and> total_requests (record_outcomes (cb_config_for None ''compliance'') six_of_ten
                     (new_CircuitBreakerStats CLOSED)) = 10
 \<and> failed_requests (record_outcomes (cb_config_for None ''compliance'') six_of_ten
                      (new_CircuitBreakerStats CLOSED)) = 6
 \<and> state (record_outcomes (cb_config_for None ''compliance'') six_of_ten
            (new_CircuitBreakerStats CLOSED)) = CLOSED
 \<and> state (stats_left_by_check
      (can_proceed_async (cb_config_for None ''compliance'') 11 11
         (record_outcomes (cb_config_for None ''compliance'') six_of_ten
            (new_CircuitBreakerStats CLOSED)))) = OPEN
 \<and> (\<forall>s'. can_proceed_async (cb_config_for None ''compliance'') 11 11
            (record_outcomes (cb_config_for None ''compliance'') six_of_ten
               (new_CircuitBreakerStats CLOSED)) \<noteq> Inr (True, s'))"
proof -
  have v: "new_CircuitBreakerConfig (cb_config_for None ''compliance'')
     = Inr (cb_config_for None ''compliance'')"
    by (rule cb_config_for_None_valid)
  have m: "minimum_number_of_calls (cb_config_for None ''compliance'') = 10"
    by code_simp
  have f: "failure_threshold (cb_config_for None ''compliance'') = 10"
    by code_simp
  have l: "length six_of_ten = 10" "length (filter (\<lambda>x. \<not> fst x) six_of_ten) = 6"
    by (simp_all add: six_of_ten_def)
  show ?thesis
    using v m f l C1_circuit_threshold [OF v m, of 0 1 1 0 2 2 0 3 3 six_of_ten 11 11]
    by (auto simp del: record_outcomes.simps)
qed

text \<open>
  The claim as the specification states it fails for the table's own configuration of
  the service \<^verbatim>\<open>trading\<close> (failure threshold 3, minimum number of calls 10) on a breaker
  without store: after two failures out of two calls the circuit is Closed, after three
  out of three it is Open and \<^verbatim>\<open>can_proceed\<close> denies the next call.
\<close>

theorem C1_circuit_threshold_counterexample:
  "minimum_number_of_calls (cb_config_for None ''trading'') = 10
 \<and> map_option (\<lambda>s. (state s, total_requests s, failed_requests s))
      (get_circuit_stats two_failures ''trading'') = Some (CLOSED, 2, 2)
 \<and> map_option (\<lambda>s. (state s, total_requests s, failed_requests s, next_attempt_time s))
      (get_circuit_stats three_failures ''trading'') = Some (OPEN, 3, 3, Some 32)
 \<and> \<not> fst (can_proceed three_failures ''trading'' None 3)
 \<and> state (record_outcomes (cb_config_for None ''trading'')
            [(False, 0, 0, 0), (False, 0, 1, 1), (False, 0, 2, 2)]
            (new_CircuitBreakerStats CLOSED)) = OPEN"
  by code_simp

text \<open>
  Claim C2, as the code has it. Let the stats object of a circuit have been moved to
  Open at \<open>T\<close> with timeout \<open>t\<close>. A \<^verbatim>\<open>_can_proceed_async\<close> before \<open>T + t\<close> is denied and
  leaves the object as it is. The first one at or after \<open>T + t\<close> is not denied and leaves
  the object HalfOpen, with success and failure counters 0 and no next attempt time.
  Every further \<^verbatim>\<open>_can_proceed_async\<close> before an outcome is recorded is allowed, since
  HalfOpen admits calls while \<open>success_count < success_threshold\<close>. The synchronous
  \<^verbatim>\<open>can_proceed\<close> denies before \<open>T + t\<close>, answers true to every call at or after
  \<open>T + t\<close>, and leaves the breaker as it is.
\<close>

theorem C2_open_to_half_open:
  assumes "1 \<le> success_threshold c"
  shows "(now < T + of_int (timeout c) \<longrightarrow>
            can_proceed_async c now u (stats_left (transition_to_open c T s))
              = Inr (False, stats_left (transition_to_open c T s)))
       \<and> (T + of_int (timeout c) \<le> now \<longrightarrow>
            (\<forall>s'. can_proceed_async c now u (stats_left (transition_to_open c T s))
                     \<noteq> Inr (False, s'))
          \<and> state (stats_left_by_check
               (can_proceed_async c now u (stats_left (transition_to_open c T s)))) = HALF_OPEN
          \<and> success_count (stats_left_by_check
               (can_proceed_async c now u (stats_left (transition_to_open c T s)))) = 0
          \<and> failure_count (stats_left_by_check
               (can_proceed_async c now u (stats_left (transition_to_open c T s)))) = 0
          \<and> next_attempt_time (stats_left_by_check
               (can_proceed_async c now u (stats_left (transition_to_open c T s)))) = None
          \<and> can_proceed_async c now' u'
               (stats_left_by_check
                  (can_proceed_async c now u (stats_left (transition_to_open c T s))))
             = Inr (True, stats_left_by_check
                     (can_proceed_async c now u (stats_left (transition_to_open c T s)))))
       \<and> (circuits cb service_name = Some (stats_left (transition_to_open c T s)) \<longrightarrow>
            can_proceed cb service_name (Some c) now = (T + of_int (timeout c) \<le> now, cb))"
  using assms
  by (auto simp add: can_proceed_async_def can_proceed_def transition_to_open_def
        transition_to_half_open_def cb_config_for_def send_circuit_alert_def
        stats_left_def stats_left_by_check_def)

theorem C2_open_to_half_open_witness:
  "1 \<le> success_threshold CircuitBreakerConfig_defaults
   \<and> (10 :: rat) < 0 + of_int (timeout CircuitBreakerConfig_defaults)
   \<and> can_proceed_async CircuitBreakerConfig_defaults 10 10
        (stats_left (transition_to_open CircuitBreakerConfig_defaults 0
                       (new_CircuitBreakerStats CLOSED)))
      = Inr (False, stats_left (transition_to_open CircuitBreakerConfig_defaults 0
                                  (new_CircuitBreakerStats CLOSED)))
   \<and> (0 :: rat) + of_int (timeout CircuitBreakerConfig_defaults) \<le> 60
   \<and> state (stats_left_by_check
        (can_proceed_async CircuitBreakerConfig_defaults 60 60
           (stats_left (transition_to_open CircuitBreakerConfig_defaults 0
                          (new_CircuitBreakerStats CLOSED))))) = HALF_OPEN
   \<and> can_proceed_async CircuitBreakerConfig_defaults 61 61
        (stats_left_by_check
           (can_proceed_async CircuitBreakerConfig_defaults 60 60
              (stats_left (transition_to_open CircuitBreakerConfig_defaults 0
                             (new_CircuitBreakerStats CLOSED)))))
      = Inr (True, stats_left_by_check
              (can_proceed_async CircuitBreakerConfig_defaults 60 60
                 (stats_left (transition_to_open CircuitBreakerConfig_defaults 0
                                (new_CircuitBreakerStats CLOSED)))))
   \<and> circuits \<lparr>cb_redis_client = None,
               circuits = [''risk'' \<mapsto> stats_left
                             (transition_to_open CircuitBreakerConfig_defaults 0
                                (new_CircuitBreakerStats CLOSED))]\<rparr> ''risk''
       = Some (stats_left (transition_to_open CircuitBreakerConfig_defaults 0
                             (new_CircuitBreakerStats CLOSED)))
   \<and> \<not> fst (can_proceed
         \<lparr>cb_redis_client = None,
          circuits = [''risk'' \<mapsto> stats_left
                        (transition_to_open CircuitBreakerConfig_defaults 0
                           (new_CircuitBreakerStats CLOSED))]\<rparr>
         ''risk'' (Some CircuitBreakerConfig_defaults) 10)"
proof -
  have h: "1 \<le> success_threshold CircuitBreakerConfig_defaults"
    by (simp add: CircuitBreakerConfig_defaults_def)
  have t: "timeout CircuitBreakerConfig_defaults = 60"
    by (simp add: CircuitBreakerConfig_defaults_def)
  show ?thesis
    using h t
      C2_open_to_half_open [OF h, of 10 0 10 "new_CircuitBreakerStats CLOSED" 10 10
        "\<lparr>cb_redis_client = None,
          circuits = [''risk'' \<mapsto> stats_left
                        (transition_to_open CircuitBreakerConfig_defaults 0
                           (new_CircuitBreakerStats CLOSED))]\<rparr>" "''risk''"]
      C2_open_to_half_open [OF h, of 60 0 60 "new_CircuitBreakerStats CLOSED" 61 61
        "new_CircuitBreaker None" "''risk''"]
    by simp
qed

text \<open>
  The claim as the specification states it allows one probe only. Here the stats object
  was moved to Open at second 0 with the default timeout of 60 s, and the check at second
  60 has left it HalfOpen: the checks at the seconds 61 and 62 are both allowed, with no
  outcome recorded in between. On the breaker \<^verbatim>\<open>three_failures\<close>, Open until second 32,
  the synchronous \<^verbatim>\<open>can_proceed\<close> answers true at the seconds 32 and 33.
\<close>

theorem C2_open_to_half_open_counterexample:
  "can_proceed_async CircuitBreakerConfig_defaults 61 61
     (stats_left_by_check
        (can_proceed_async CircuitBreakerConfig_defaults 60 60
           (stats_left (transition_to_open CircuitBreakerConfig_defaults 0
                          (new_CircuitBreakerStats CLOSED)))))
   = Inr (True, \<lparr>state = HALF_OPEN, failure_count = 0, success_count = 0,
                 last_failure_time = None, last_success_time = None,
                 total_requests = 0, failed_requests = 0, slow_requests = 0,
                 average_response_time = 0, next_attempt_time = None\<rparr>)
 \<and> can_proceed_async CircuitBreakerConfig_defaults 62 62
     (stats_left_by_check
        (can_proceed_async CircuitBreakerConfig_defaults 60 60
           (stats_left (transition_to_open CircuitBreakerConfig_defaults 0
                          (new_CircuitBreakerStats CLOSED)))))
   = Inr (True, \<lparr>state = HALF_OPEN, failure_count = 0, success_count = 0,
                 last_failure_time = None, last_success_time = None,
                 total_requests = 0, failed_requests = 0, slow_requests = 0,
                 average_response_time = 0, next_attempt_time = None\<rparr>)
 \<and> fst (can_proceed three_failures ''trading'' None 32)
 \<and> fst (can_proceed three_failures ''trading'' None 33)"
  by code_simp

text \<open>
  On one stats object the recorders and the asynchronous check keep the next attempt
  time unset outside Open.
\<close>

lemma next_attempt_only_open_kept:
  assumes "next_attempt_time s \<noteq> None \<longrightarrow> state s = OPEN"
  shows "next_attempt_time (stats_left (record_success_update c rt now s)) \<noteq> None \<longrightarrow>
           state (stats_left (record_success_update c rt now s)) = OPEN"
    and "next_attempt_time (stats_left (record_failure_update c rt now u s)) \<noteq> None \<longrightarrow>
           state (stats_left (record_failure_update c rt now u s)) = OPEN"
    and "next_attempt_time (stats_left_by_check (can_proceed_async c now u s)) \<noteq> None \<longrightarrow>
           state (stats_left_by_check (can_proceed_async c now u s)) = OPEN"
  using assms
  by (auto simp add: record_success_update_def record_failure_update_def can_proceed_async_def
        update_average_def Let_def transition_to_open_def transition_to_closed_def
        transition_to_half_open_def send_circuit_alert_def apply_sliding_window_def
        stats_left_def stats_left_by_check_def
      split: if_splits CircuitState.splits option.splits)

subsection \<open>Circuit breaker: the object\<close>

text \<open>
  Claim C6 fails at the third success. The service \<^verbatim>\<open>trading\<close> (success threshold 3) of
  a breaker without store has failed three times and is Open until second 32. The
  protected call at second 33 leaves the circuit HalfOpen with both counters 0. The
  calls at the seconds 34 and 35 return and leave it HalfOpen with 1 and 2 successes. At
  second 36 the function returns for the third time in a row: \<^verbatim>\<open>_record_success\<close> moves
  the stats to Closed with both counters 0 and then raises in the alert; the exception
  handler of \<^verbatim>\<open>call_with_circuit_breaker\<close> takes this for a failure of the call, records
  it, and raises again. The circuit is left Closed with a failure count of 1 and one
  more failed request, and the caller gets \<^verbatim>\<open>TypeError\<close> in place of the result.
\<close>

theorem C6_closing_success_recorded_as_failure:
  "success_threshold (cb_config_for None ''trading'') = 3
 \<and> map_option (\<lambda>s. (state s, success_count s, failure_count s, failed_requests s))
      (get_circuit_stats after_check_33 ''trading'') = Some (HALF_OPEN, 0, 0, 3)
 \<and> fst (call_with_circuit_breaker after_check_33 ''trading'' True None (call_at 34)) = Inr ()
 \<and> map_option (\<lambda>s. (state s, success_count s, failure_count s, failed_requests s))
      (get_circuit_stats after_two_successes ''trading'') = Some (HALF_OPEN, 2, 0, 3)
 \<and> fst (call_with_circuit_breaker after_two_successes ''trading'' True None (call_at 36))
      = Inl (PyError TypeError)
 \<and> map_option (\<lambda>s. (state s, success_count s, failure_count s, failed_requests s,
                     total_requests s, last_failure_time s, next_attempt_time s))
      (get_circuit_stats after_third_success ''trading'')
      = Some (CLOSED, 0, 1, 4, 7, Some 36, None)"
  by code_simp

text \<open>
  Claim C10. The synchronous \<^verbatim>\<open>can_proceed\<close> leaves the breaker as it found it: the
  local cache of every service and the store are unchanged, so no transition happens.
  For a service that has no stats in the local cache the answer is true.
\<close>

theorem C10_can_proceed_frame:
  "snd (can_proceed cb service_name config now) = cb
   \<and> (circuits cb service_name = None \<longrightarrow> fst (can_proceed cb service_name config now))"
  by (simp add: can_proceed_def Let_def split: option.splits CircuitState.splits)

theorem C10_can_proceed_frame_witness:
  "snd (can_proceed (new_CircuitBreaker None) ''trading'' None 0) = new_CircuitBreaker None
   \<and> circuits (new_CircuitBreaker None) ''trading'' = None
   \<and> fst (can_proceed (new_CircuitBreaker None) ''trading'' None 0)"
  using C10_can_proceed_frame [of "new_CircuitBreaker None" "''trading''" None 0]
  by (simp add: new_CircuitBreaker_def)

text \<open>
  Claim C7 fails where stats go through the store. \<^verbatim>\<open>_save_circuit_stats\<close> leaves a
  field out of the mapping when its value is \<^verbatim>\<open>None\<close>, and \<^verbatim>\<open>hset\<close> keeps the fields it
  is not given, so a \<^verbatim>\<open>next_attempt_time\<close> once written stays in the hash. In the run
  below the service \<^verbatim>\<open>trading\<close> opens at second 0 with next attempt at second 60 (the
  recorder raises in the alert before it saves, and the caller gets \<^verbatim>\<open>TypeError\<close>); the
  Open stats reach the store with the success recorded at second 1; the circuit is
  reset; and after the success recorded at second 2 the stats of the circuit, in the
  local cache and as read through the store, are Closed with the next attempt time of
  second 60.
\<close>

theorem C7_stale_next_attempt_time:
  "fst (call_with_circuit_breaker store_breaker ''trading'' False (Some threshold_one)
         (call_at 0)) = Inl (PyError TypeError)
 \<and> map_option (\<lambda>s. (state s, next_attempt_time s)) (get_circuit_stats opened_in_cache ''trading'')
      = Some (OPEN, Some 60)
 \<and> fst (record_success opened_in_cache ''trading'' 1) = Inr ()
 \<and> fst (priv_get_circuit_stats open_in_store ''trading'') =
     \<lparr>state = OPEN, failure_count = 1, success_count = 1,
      last_failure_time = Some 0, last_success_time = Some 1,
      total_requests = 2, failed_requests = 1, slow_requests = 0,
      average_response_time = 0, next_attempt_time = Some 60\<rparr>
 \<and> fst (record_success after_reset ''trading'' 2) = Inr ()
 \<and> get_circuit_stats after_reset_and_success ''trading'' =
     Some \<lparr>state = CLOSED, failure_count = 0, success_count = 1,
           last_failure_time = Some 0, last_success_time = Some 2,
           total_requests = 1, failed_requests = 0, slow_requests = 0,
           average_response_time = 0, next_attempt_time = Some 60\<rparr>
 \<and> fst (priv_get_circuit_stats after_reset_and_success ''trading'') =
     \<lparr>state = CLOSED, failure_count = 0, success_count = 1,
      last_failure_time = Some 0, last_success_time = Some 2,
      total_requests = 1, failed_requests = 0, slow_requests = 0,
      average_response_time = 0, next_attempt_time = Some 60\<rparr>"
  by code_simp

text \<open>
  Claim C9 fails for the same reason. After \<^verbatim>\<open>reset_circuit\<close> on the breaker whose
  store holds the Open stats, the local cache holds the baseline, but the stats that
  \<^verbatim>\<open>_get_circuit_stats\<close> reads back through the store are Closed with zero counters and
  still carry the next attempt time of second 60, the last failure time of second 0 and
  the last success time of second 1. A second reset changes nothing.
\<close>

theorem C9_reset_keeps_stale_fields:
  "get_circuit_stats after_reset ''trading'' = Some (new_CircuitBreakerStats CLOSED)
 \<and> fst (priv_get_circuit_stats after_reset ''trading'') =
     \<lparr>state = CLOSED, failure_count = 0, success_count = 0,
      last_failure_time = Some 0, last_success_time = Some 1,
      total_requests = 0, failed_requests = 0, slow_requests = 0,
      average_response_time = 0, next_attempt_time = Some 60\<rparr>
 \<and> fst (priv_get_circuit_stats (reset_circuit after_reset ''trading'') ''trading'')
      = fst (priv_get_circuit_stats after_reset ''trading'')"
  by code_simp

subsection \<open>Rate limiter: store errors\<close>

lemma fixed_window_handler:
  assumes "rl_redis_client rl = Some r"
    "fixed_window_check rl ident c clock = (res, rl', logs)" "logs \<noteq> []"
  shows "allowed res \<and> retry_after res = None \<and> requests_remaining res = requests_per_minute c
       \<and> local_cache rl' = local_cache rl \<and> (\<exists>m. logs = [LogError m])"
  using assms
  by (auto simp add: fixed_window_check_def fail_open_def with_client_def Let_def
      split: sum.splits prod.splits if_splits)

lemma sliding_window_handler:
  assumes "rl_redis_client rl = Some r"
    "sliding_window_check rl ident c clock = (res, rl', logs)" "logs \<noteq> []"
  shows "allowed res \<and> retry_after res = None \<and> requests_remaining res = requests_per_minute c
       \<and> local_cache rl' = local_cache rl \<and> (\<exists>m. logs = [LogError m])"
  using assms
  by (auto simp add: sliding_window_check_def fail_open_def with_client_def Let_def
      split: sum.splits prod.splits if_splits)

lemma token_bucket_handler:
  assumes "rl_redis_client rl = Some r"
    "token_bucket_check rl ident c clock = (res, rl', logs)" "logs \<noteq> []"
  shows "allowed res \<and> retry_after res = None \<and> requests_remaining res = bucket_capacity c
       \<and> local_cache rl' = local_cache rl \<and> (\<exists>m. logs = [LogError m])"
  using assms
  by (auto simp add: token_bucket_check_def fail_open_def with_client_def Let_def
      split: sum.splits prod.splits if_splits)

lemma leaky_bucket_handler:
  assumes "rl_redis_client rl = Some r"
    "leaky_bucket_check rl ident c clock = (res, rl', logs)" "logs \<noteq> []"
  shows "allowed res \<and> retry_after res = None \<and> requests_remaining res = bucket_capacity c
       \<and> local_cache rl' = local_cache rl \<and> (\<exists>m. logs = [LogError m])"
  using assms
  by (auto simp add: leaky_bucket_check_def fail_open_def with_client_def Let_def
      split: sum.splits prod.splits if_splits)

lemma redis_call_fault: "faults r = True # fs \<Longrightarrow> redis_call f r = Inl (r\<lparr>faults := fs\<rparr>)"
  by (simp add: redis_call_def)

lemma first_call_fault:
  assumes "rl_redis_client rl = Some r" "faults r = True # fs"
  shows "snd (snd (check_rate_limit rl ident config user_tier clock)) \<noteq> []"
  using assms
  by (simp add: check_rate_limit_def fixed_window_check_def sliding_window_check_def
        token_bucket_check_def leaky_bucket_check_def redis_call_fault fail_open_def Let_def
      split: RateLimitStrategy.splits)

text \<open>
  With a store client, whenever the exception handler of a check runs, at whatever store
  call, the check returns an allowed result with no \<^verbatim>\<open>retry_after\<close> and with
  \<^verbatim>\<open>requests_remaining\<close> equal to the configured limit, leaves the in-process cache as
  it was, and logs one line at error level; a denied result comes only from a check
  that logged no error.
\<close>

lemma store_error_handler:
  assumes client: "rl_redis_client rl = Some r"
    and run: "check_rate_limit rl ident config user_tier clock = (res, rl', logs)"
  shows "(logs \<noteq> [] \<longrightarrow>
            allowed res \<and> retry_after res = None
          \<and> requests_remaining res = limit_of (rl_config_for config user_tier)
          \<and> local_cache rl' = local_cache rl \<and> (\<exists>m. logs = [LogError m]))
       \<and> (allowed res \<or> logs = [])"
proof -
  have b: "allowed res \<and> retry_after res = None
          \<and> requests_remaining res = limit_of (rl_config_for config user_tier)
          \<and> local_cache rl' = local_cache rl \<and> (\<exists>m. logs = [LogError m])"
    if l: "logs \<noteq> []"
  proof (cases "strategy (rl_config_for config user_tier)")
    case FIXED_WINDOW
    then show ?thesis
      using fixed_window_handler [OF client _ l] run
      by (simp add: check_rate_limit_def limit_of_def)
  next
    case SLIDING_WINDOW
    then show ?thesis
      using sliding_window_handler [OF client _ l] run
      by (simp add: check_rate_limit_def limit_of_def)
  next
    case TOKEN_BUCKET
    then show ?thesis
      using token_bucket_handler [OF client _ l] run
      by (simp add: check_rate_limit_def limit_of_def)
  next
    case LEAKY_BUCKET
    then show ?thesis
      using leaky_bucket_handler [OF client _ l] run
      by (simp add: check_rate_limit_def limit_of_def)
  qed
  show ?thesis using b by blast
qed

text \<open>
  Claim C3 fails in the fallback it promises, as do the comments of the code
  (\<^verbatim>\<open>_local_cache: Fallback for Redis unavailability\<close>, \<^verbatim>\<open>Local cache fallback when
  Redis is unavailable\<close>): the in-process approximation runs only in a limiter that has
  no client, and a check whose store call raises answers from its exception handler
  without counting the request anywhere. Here the limit is five requests per minute
  under the sliding window. With a store that raises at every call, six checks within
  one second are all allowed, each with five requests remaining; the first logs one
  line at error level; the in-process cache has no entry for the identifier afterwards.
  The same holds when the first store call of a check returns and the second raises.
  The in-process approximation, which a limiter without a client runs, denies the sixth
  check.
\<close>

theorem C3_store_error_no_fallback:
  "(case check_rate_limit down_limiter ''u'' (Some five_per_minute) ''basic'' (at_time 0) of
      (result, rl', logged) \<Rightarrow> (result, logged, local_cache rl' ''u''))
    = (\<lparr>allowed = True, requests_remaining = 5, reset_time = 60, retry_after = None\<rparr>,
       [LogError ''Sliding window rate limit check failed''], None)
 \<and> (case check_rate_limit
           (new_RateLimiter (Some \<lparr>faults = [False, True], db = empty_rl_db\<rparr>))
           ''u'' (Some five_per_minute) ''basic'' (at_time 0) of
      (result, rl', logged) \<Rightarrow> (result, logged, local_cache rl' ''u''))
    = (\<lparr>allowed = True, requests_remaining = 5, reset_time = 60, retry_after = None\<rparr>,
       [LogError ''Sliding window rate limit check failed''], None)
 \<and> (case check_sequence down_limiter ''u'' five_per_minute six_in_a_second of
      (results, rl') \<Rightarrow>
        (map allowed results, map requests_remaining results, local_cache rl' ''u''))
    = ([True, True, True, True, True, True], [5, 5, 5, 5, 5, 5], None)
 \<and> (case check_sequence local_limiter ''u'' five_per_minute six_in_a_second of
      (results, rl') \<Rightarrow> (map allowed results, map requests_remaining results))
    = ([True, True, True, True, True, False], [4, 3, 2, 1, 0, 0])"
  by code_simp

subsection \<open>Rate limiter: token bucket\<close>

text \<open>
  Claim C4 fails in its last part on the in-process path, which the script of the
  store path contradicts. The bucket has capacity 1 and refills one token per second;
  the first check, at second 0, takes the token, and the second, at second 0.5, finds
  half a token and is denied. With the store, the script returns without writing and
  the hash is as the first check left it: 0 tokens, last refill at second 0. Without a
  store, the denied check leaves 0.5 tokens and a last refill at second 0.5 in the
  entry of the identifier.
\<close>

theorem C4_denied_check_writes_local_entry:
  "(case check_sequence up_limiter ''u'' one_token [at_time 0] of
      (results, rl') \<Rightarrow>
        (map allowed results,
         map_option (\<lambda>r. token_hashes (db r) ''u'') (rl_redis_client rl')))
    = ([True], Some (Some 0, Some 0))
 \<and> (case check_sequence up_limiter ''u'' one_token [at_time 0, at_time (1 / 2)] of
      (results, rl') \<Rightarrow>
        (map allowed results,
         map_option (\<lambda>r. token_hashes (db r) ''u'') (rl_redis_client rl')))
    = ([True, False], Some (Some 0, Some 0))
 \<and> (case check_sequence local_limiter ''u'' one_token [at_time 0] of
      (results, rl') \<Rightarrow>
        (map allowed results,
         map_option (\<lambda>e. (tokens e, last_refill e)) (local_cache rl' ''u'')))
    = ([True], Some (PyInt 0, 0))
 \<and> (case check_sequence local_limiter ''u'' one_token [at_time 0, at_time (1 / 2)] of
      (results, rl') \<Rightarrow>
        (map allowed results,
         map_option (\<lambda>e. (tokens e, last_refill e)) (local_cache rl' ''u'')))
    = ([True, False], Some (PyFloat (1 / 2), 1 / 2))"
  by code_simp

subsection \<open>Rate limiter: sliding window\<close>

lemma f_sub_mono: "a - b \<le> c - d \<Longrightarrow> f_sub a b \<le> f_sub c d"
  by (simp add: f_sub_def round_double_mono)

lemma round_double_60: "round_double 60 = 60"
  by code_simp

lemma py_int_positive: "0 \<le> x \<Longrightarrow> 0 \<le> py_int x \<and> (0 < py_int x \<longleftrightarrow> 1 \<le> x)"
  by (auto simp add: py_int_def)

text \<open>
  The difference \<^verbatim>\<open>oldest + 60 - now\<close> of a denied check is not negative when \<open>now\<close> is
  a double and the oldest request is in the window as the check measures it.
\<close>

lemma retry_nonneg:
  assumes now: "round_double t6 = t6" and inside: "t6 - t1 < 60"
  shows "0 \<le> f_sub (f_add t1 60) t6"
proof -
  have "t6 \<le> t1 + 60" using inside by simp
  then have "round_double t6 \<le> round_double (t1 + 60)" by (rule round_double_mono)
  then have "0 \<le> f_add t1 60 - t6" using now by (simp add: f_add_def)
  then have "round_double 0 \<le> round_double (f_add t1 60 - t6)" by (rule round_double_mono)
  then show ?thesis by (simp add: f_sub_def)
qed

lemma retry_nonneg_local:
  assumes "round_double t6 = t6" "f_sub t6 t1 < 60"
  shows "0 \<le> f_sub (f_add t1 60) t6"
proof -
  have "t6 - t1 < 60"
  proof (rule ccontr)
    assume "\<not> t6 - t1 < 60"
    then have "round_double 60 \<le> round_double (t6 - t1)"
      by (intro round_double_mono) simp
    then show False using assms(2) by (simp add: f_sub_def round_double_60)
  qed
  with assms(1) show ?thesis by (rule retry_nonneg)
qed

lemma retry_nonneg_store:
  assumes "round_double t1 = t1" "round_double t6 = t6" "f_sub t6 60 < t1"
  shows "0 \<le> f_sub (f_add t1 60) t6"
proof -
  have "t6 - t1 < 60"
  proof (rule ccontr)
    assume "\<not> t6 - t1 < 60"
    then have "round_double t1 \<le> round_double (t6 - 60)"
      by (intro round_double_mono) simp
    then show False using assms(1,3) by (simp add: f_sub_def)
  qed
  with assms(2) show ?thesis by (rule retry_nonneg)
qed

text \<open>One check on the in-process cache, and one on the store, when no request falls out of the window.\<close>

lemma sliding_local_step:
  assumes client: "rl_redis_client rl = None"
    and strat: "strategy config = SLIDING_WINDOW"
    and rpm: "1 \<le> requests_per_minute config"
    and reqs: "reqs = (case local_cache rl ident of Some e \<Rightarrow> requests e | None \<Rightarrow> [])"
    and window: "\<forall>t \<in> set reqs. f_sub (t_local clock) t < 60"
  shows "\<exists>res rl' e'.
           check_rate_limit rl ident (Some config) user_tier clock = (res, rl', [])
         \<and> rl_redis_client rl' = None \<and> local_cache rl' ident = Some e'
         \<and> (if requests_per_minute config \<le> int (length reqs)
             then \<not> allowed res \<and> requests_remaining res = 0
                \<and> retry_after res = Some (py_int (f_sub (f_add (hd reqs) 60) (t_local clock)))
                \<and> requests e' = reqs
             else allowed res
                \<and> requests_remaining res = requests_per_minute config - int (length reqs) - 1
                \<and> retry_after res = None
                \<and> requests e' = reqs @ [t_local clock])"
proof -
  have f: "filter (\<lambda>req_time. f_sub (t_local clock) req_time < 60) reqs = reqs"
    using window by (simp add: filter_id_conv)
  show ?thesis
  proof (cases "local_cache rl ident")
    case None
    then have "reqs = []" using reqs by simp
    then show ?thesis using None client strat rpm
      by (simp add: check_rate_limit_def rl_config_for_def sliding_window_check_def
            local_cache_check_def set_entry_def Let_def)
  next
    case (Some e)
    then have r: "requests e = reqs" using reqs by simp
    show ?thesis
    proof (cases reqs)
      case Nil
      then show ?thesis using Some r client strat rpm
        by (simp add: check_rate_limit_def rl_config_for_def sliding_window_check_def
              local_cache_check_def set_entry_def Let_def)
    next
      case (Cons a as)
      then show ?thesis using Some r client strat rpm f
        by (simp add: check_rate_limit_def rl_config_for_def sliding_window_check_def
              local_cache_check_def set_entry_def Let_def)
    qed
  qed
qed

lemma insort_last: "sorted xs \<Longrightarrow> \<forall>x \<in> set xs. x < (a::rat) \<Longrightarrow> insort a xs = xs @ [a]"
  by (induction xs) auto

lemma sliding_store_step:
  assumes client: "rl_redis_client rl = Some r"
    and up: "faults r = []"
    and strat: "strategy config = SLIDING_WINDOW"
    and scores: "scores = sliding_sets (db r) ident"
    and srt: "sorted scores"
    and window: "\<forall>t \<in> set scores. f_sub (t_now clock) 60 < t \<and> t < t_now clock"
  shows "\<exists>res rl' r'.
           check_rate_limit rl ident (Some config) user_tier clock = (res, rl', [])
         \<and> rl_redis_client rl' = Some r' \<and> faults r' = []
         \<and> (if requests_per_minute config \<le> int (length scores)
             then \<not> allowed res \<and> requests_remaining res = 0
                \<and> retry_after res
                    = Some (case scores of
                              score # others \<Rightarrow> py_int (f_sub (f_add score 60) (t_now clock))
                            | [] \<Rightarrow> 60)
                \<and> sliding_sets (db r') ident = scores
             else allowed res
                \<and> requests_remaining res = requests_per_minute config - int (length scores) - 1
                \<and> retry_after res = None
                \<and> sliding_sets (db r') ident = scores @ [t_now clock])"
proof -
  have f: "filter (\<lambda>score. \<not> score \<le> f_sub (t_now clock) 60) scores = scores"
    using window by (auto simp add: filter_id_conv)
  have n: "t_now clock \<notin> set scores" using window by auto
  have i: "insort (t_now clock) scores = scores @ [t_now clock]"
    using srt window by (simp add: insort_last)
  show ?thesis
    using client up strat scores [symmetric] f n i
    by (cases scores)
      (simp_all add: check_rate_limit_def rl_config_for_def sliding_window_check_def
        redis_call_def zremrangebyscore_def zcard_def zrange_first_def zadd_expire_def
        with_client_def Let_def)
qed

lemma sliding_local_six:
  assumes client: "rl_redis_client rl = None"
    and fresh: "local_cache rl ident = None"
    and strat: "strategy config = SLIDING_WINDOW"
    and rpm: "requests_per_minute config = 5"
    and order: "t_local c1 \<le> t_local c2" "t_local c2 \<le> t_local c3" "t_local c3 \<le> t_local c4"
      "t_local c4 \<le> t_local c5" "t_local c5 \<le> t_local c6"
    and minute: "f_sub (t_local c6) (t_local c1) < 60"
  shows "map allowed (fst (check_sequence rl ident config [c1, c2, c3, c4, c5, c6]))
           = [True, True, True, True, True, False]
       \<and> map requests_remaining (fst (check_sequence rl ident config [c1, c2, c3, c4, c5, c6]))
           = [4, 3, 2, 1, 0, 0]
       \<and> map retry_after (fst (check_sequence rl ident config [c1, c2, c3, c4, c5, c6]))
           = [None, None, None, None, None,
              Some (py_int (f_sub (f_add (t_local c1) 60) (t_local c6)))]"
proof -
  have rpm1: "1 \<le> requests_per_minute config" using rpm by simp
  have w: "f_sub a b < 60"
    if "t_local c1 \<le> b" "b \<le> a" "a \<le> t_local c6" for a b
  proof -
    have "a - b \<le> t_local c6 - t_local c1" using that by simp
    from f_sub_mono [OF this] minute show ?thesis by simp
  qed
  from sliding_local_step [OF client strat rpm1, of "[]" ident c1 "''basic''"] fresh rpm
  obtain res1 rl1 e1 where s1:
    "check_rate_limit rl ident (Some config) ''basic'' c1 = (res1, rl1, [])"
    "rl_redis_client rl1 = None" "local_cache rl1 ident = Some e1"
    "allowed res1" "requests_remaining res1 = 4" "retry_after res1 = None"
    "requests e1 = [t_local c1]" by auto
  have w2: "\<forall>t \<in> set [t_local c1]. f_sub (t_local c2) t < 60"
    using order by (auto intro!: w)
  from sliding_local_step [OF s1(2) strat rpm1, of "[t_local c1]" ident c2 "''basic''"]
    s1(3,7) rpm w2
  obtain res2 rl2 e2 where s2:
    "check_rate_limit rl1 ident (Some config) ''basic'' c2 = (res2, rl2, [])"
    "rl_redis_client rl2 = None" "local_cache rl2 ident = Some e2"
    "allowed res2" "requests_remaining res2 = 3" "retry_after res2 = None"
    "requests e2 = [t_local c1, t_local c2]" by auto
  have w3: "\<forall>t \<in> set [t_local c1, t_local c2]. f_sub (t_local c3) t < 60"
    using order by (auto intro!: w)
  from sliding_local_step [OF s2(2) strat rpm1, of "[t_local c1, t_local c2]" ident c3
      "''basic''"] s2(3,7) rpm w3
  obtain res3 rl3 e3 where s3:
    "check_rate_limit rl2 ident (Some config) ''basic'' c3 = (res3, rl3, [])"
    "rl_redis_client rl3 = None" "local_cache rl3 ident = Some e3"
    "allowed res3" "requests_remaining res3 = 2" "retry_after res3 = None"
    "requests e3 = [t_local c1, t_local c2, t_local c3]" by auto
  have w4: "\<forall>t \<in> set [t_local c1, t_local c2, t_local c3]. f_sub (t_local c4) t < 60"
    using order by (auto intro!: w)
  from sliding_local_step [OF s3(2) strat rpm1, of "[t_local c1, t_local c2, t_local c3]"
      ident c4 "''basic''"] s3(3,7) rpm w4
  obtain res4 rl4 e4 where s4:
    "check_rate_limit rl3 ident (Some config) ''basic'' c4 = (res4, rl4, [])"
    "rl_redis_client rl4 = None" "local_cache rl4 ident = Some e4"
    "allowed res4" "requests_remaining res4 = 1" "retry_after res4 = None"
    "requests e4 = [t_local c1, t_local c2, t_local c3, t_local c4]" by auto
  have w5: "\<forall>t \<in> set [t_local c1, t_local c2, t_local c3, t_local c4].
              f_sub (t_local c5) t < 60"
    using order by (auto intro!: w)
  from sliding_local_step [OF s4(2) strat rpm1,
      of "[t_local c1, t_local c2, t_local c3, t_local c4]" ident c5 "''basic''"]
    s4(3,7) rpm w5
  obtain res5 rl5 e5 where s5:
    "check_rate_limit rl4 ident (Some config) ''basic'' c5 = (res5, rl5, [])"
    "rl_redis_client rl5 = None" "local_cache rl5 ident = Some e5"
    "allowed res5" "requests_remaining res5 = 0" "retry_after res5 = None"
    "requests e5 = [t_local c1, t_local c2, t_local c3, t_local c4, t_local c5]" by auto
  have w6: "\<forall>t \<in> set [t_local c1, t_local c2, t_local c3, t_local c4, t_local c5].
              f_sub (t_local c6) t < 60"
    using order by (auto intro!: w)
  from sliding_local_step [OF s5(2) strat rpm1,
      of "[t_local c1, t_local c2, t_local c3, t_local c4, t_local c5]" ident c6 "''basic''"]
    s5(3,7) rpm w6
  obtain res6 rl6 where s6:
    "check_rate_limit rl5 ident (Some config) ''basic'' c6 = (res6, rl6, [])"
    "\<not> allowed res6" "requests_remaining res6 = 0"
    "retry_after res6 = Some (py_int (f_sub (f_add (t_local c1) 60) (t_local c6)))" by auto
  have "check_sequence rl ident config [c1, c2, c3, c4, c5, c6]
          = ([res1, res2, res3, res4, res5, res6], rl6)"
    using s1(1) s2(1) s3(1) s4(1) s5(1) s6(1) by simp
  then show ?thesis
    using s1(4-6) s2(4-6) s3(4-6) s4(4-6) s5(4-6) s6(2-4) by simp
qed

lemma sliding_store_six:
  assumes client: "rl_redis_client rl = Some r"
    and up: "faults r = []"
    and fresh: "sliding_sets (db r) ident = []"
    and strat: "strategy config = SLIDING_WINDOW"
    and rpm: "requests_per_minute config = 5"
    and order: "t_now c1 < t_now c2" "t_now c2 < t_now c3" "t_now c3 < t_now c4"
      "t_now c4 < t_now c5" "t_now c5 < t_now c6"
    and minute: "f_sub (t_now c6) 60 < t_now c1"
  shows "map allowed (fst (check_sequence rl ident config [c1, c2, c3, c4, c5, c6]))
           = [True, True, True, True, True, False]
       \<and> map requests_remaining (fst (check_sequence rl ident config [c1, c2, c3, c4, c5, c6]))
           = [4, 3, 2, 1, 0, 0]
       \<and> map retry_after (fst (check_sequence rl ident config [c1, c2, c3, c4, c5, c6]))
           = [None, None, None, None, None,
              Some (py_int (f_sub (f_add (t_now c1) 60) (t_now c6)))]"
proof -
  have w: "f_sub a 60 < b"
    if "t_now c1 \<le> b" "a \<le> t_now c6" for a b
  proof -
    have "a - 60 \<le> t_now c6 - 60" using that by simp
    from f_sub_mono [OF this] minute that(1) show ?thesis by simp
  qed
  from sliding_store_step [OF client up strat, of "[]" ident c1 "''basic''"] fresh rpm
  obtain res1 rl1 r1 where s1:
    "check_rate_limit rl ident (Some config) ''basic'' c1 = (res1, rl1, [])"
    "rl_redis_client rl1 = Some r1" "faults r1 = []"
    "allowed res1" "requests_remaining res1 = 4" "retry_after res1 = None"
    "sliding_sets (db r1) ident = [t_now c1]" by auto
  have w2: "sorted [t_now c1]"
    "\<forall>t \<in> set [t_now c1]. f_sub (t_now c2) 60 < t \<and> t < t_now c2"
    using order by (auto intro!: w)
  from sliding_store_step [OF s1(2,3) strat s1(7) [symmetric] w2, of "''basic''"] rpm
  obtain res2 rl2 r2 where s2:
    "check_rate_limit rl1 ident (Some config) ''basic'' c2 = (res2, rl2, [])"
    "rl_redis_client rl2 = Some r2" "faults r2 = []"
    "allowed res2" "requests_remaining res2 = 3" "retry_after res2 = None"
    "sliding_sets (db r2) ident = [t_now c1, t_now c2]" by auto
  have w3: "sorted [t_now c1, t_now c2]"
    "\<forall>t \<in> set [t_now c1, t_now c2]. f_sub (t_now c3) 60 < t \<and> t < t_now c3"
    using order by (auto intro!: w)
  from sliding_store_step [OF s2(2,3) strat s2(7) [symmetric] w3, of "''basic''"] rpm
  obtain res3 rl3 r3 where s3:
    "check_rate_limit rl2 ident (Some config) ''basic'' c3 = (res3, rl3, [])"
    "rl_redis_client rl3 = Some r3" "faults r3 = []"
    "allowed res3" "requests_remaining res3 = 2" "retry_after res3 = None"
    "sliding_sets (db r3) ident = [t_now c1, t_now c2, t_now c3]" by auto
  have w4: "sorted [t_now c1, t_now c2, t_now c3]"
    "\<forall>t \<in> set [t_now c1, t_now c2, t_now c3]. f_sub (t_now c4) 60 < t \<and> t < t_now c4"
    using order by (auto intro!: w)
  from sliding_store_step [OF s3(2,3) strat s3(7) [symmetric] w4, of "''basic''"] rpm
  obtain res4 rl4 r4 where s4:
    "check_rate_limit rl3 ident (Some config) ''basic'' c4 = (res4, rl4, [])"
    "rl_redis_client rl4 = Some r4" "faults r4 = []"
    "allowed res4" "requests_remaining res4 = 1" "retry_after res4 = None"
    "sliding_sets (db r4) ident = [t_now c1, t_now c2, t_now c3, t_now c4]" by auto
  have w5: "sorted [t_now c1, t_now c2, t_now c3, t_now c4]"
    "\<forall>t \<in> set [t_now c1, t_now c2, t_now c3, t_now c4].
       f_sub (t_now c5) 60 < t \<and> t < t_now c5"
    using order by (auto intro!: w)
  from sliding_store_step [OF s4(2,3) strat s4(7) [symmetric] w5, of "''basic''"] rpm
  obtain res5 rl5 r5 where s5:
    "check_rate_limit rl4 ident (Some config) ''basic'' c5 = (res5, rl5, [])"
    "rl_redis_client rl5 = Some r5" "faults r5 = []"
    "allowed res5" "requests_remaining res5 = 0" "retry_after res5 = None"
    "sliding_sets (db r5) ident = [t_now c1, t_now c2, t_now c3, t_now c4, t_now c5]" by auto
  have w6: "sorted [t_now c1, t_now c2, t_now c3, t_now c4, t_now c5]"
    "\<forall>t \<in> set [t_now c1, t_now c2, t_now c3, t_now c4, t_now c5].
       f_sub (t_now c6) 60 < t \<and> t < t_now c6"
    using order by (auto intro!: w)
  from sliding_store_step [OF s5(2,3) strat s5(7) [symmetric] w6, of "''basic''"] rpm
  obtain res6 rl6 where s6:
    "check_rate_limit rl5 ident (Some config) ''basic'' c6 = (res6, rl6, [])"
    "\<not> allowed res6" "requests_remaining res6 = 0"
    "retry_after res6 = Some (py_int (f_sub (f_add (t_now c1) 60) (t_now c6)))" by auto
  have "check_sequence rl ident config [c1, c2, c3, c4, c5, c6]
          = ([res1, res2, res3, res4, res5, res6], rl6)"
    using s1(1) s2(1) s3(1) s4(1) s5(1) s6(1) by simp
  then show ?thesis
    using s1(4-6) s2(4-6) s3(4-6) s4(4-6) s5(4-6) s6(2-4) by simp
qed

text \<open>
  Claim C5, as the code has it. Under the sliding-window strategy with
  \<open>requests_per_minute = 5\<close>, for an identifier with no requests on record, let six
  checks come at times in ascending order, the sixth in the window of the first as the
  check measures it in double arithmetic: \<^verbatim>\<open>now - oldest < 60\<close> in the in-process cache,
  \<^verbatim>\<open>now - 60 < oldest\<close> in the store. The first five are allowed with 4, 3, 2, 1, 0
  requests remaining, and the sixth is denied with 0 requests remaining and
  \<^verbatim>\<open>retry_after\<close> equal to \<^verbatim>\<open>oldest + 60 - now\<close>, computed in doubles and truncated to
  whole seconds. For times that are doubles that number is never negative; it is
  positive exactly when the difference is at least one second, and 0 in the last second
  of the window. In the store the times are in strictly ascending order (the members of
  the sorted set are the times themselves).
\<close>

theorem C5_sliding_window_scenario:
  assumes strat: "strategy config = SLIDING_WINDOW"
    and rpm: "requests_per_minute config = 5"
  shows "(rl_redis_client rl = None \<and> local_cache rl identifier = None
          \<and> t_local c1 \<le> t_local c2 \<and> t_local c2 \<le> t_local c3 \<and> t_local c3 \<le> t_local c4
          \<and> t_local c4 \<le> t_local c5 \<and> t_local c5 \<le> t_local c6
          \<and> f_sub (t_local c6) (t_local c1) < 60
          \<and> round_double (t_local c6) = t_local c6 \<longrightarrow>
            map allowed (fst (check_sequence rl identifier config [c1, c2, c3, c4, c5, c6]))
              = [True, True, True, True, True, False]
          \<and> map requests_remaining
                (fst (check_sequence rl identifier config [c1, c2, c3, c4, c5, c6]))
              = [4, 3, 2, 1, 0, 0]
          \<and> map retry_after (fst (check_sequence rl identifier config [c1, c2, c3, c4, c5, c6]))
              = [None, None, None, None, None,
                 Some (py_int (f_sub (f_add (t_local c1) 60) (t_local c6)))]
          \<and> 0 \<le> py_int (f_sub (f_add (t_local c1) 60) (t_local c6))
          \<and> (0 < py_int (f_sub (f_add (t_local c1) 60) (t_local c6))
               \<longleftrightarrow> 1 \<le> f_sub (f_add (t_local c1) 60) (t_local c6)))
       \<and> (\<forall>r. rl_redis_client rl = Some r \<and> faults r = []
              \<and> sliding_sets (db r) identifier = []
              \<and> t_now c1 < t_now c2 \<and> t_now c2 < t_now c3 \<and> t_now c3 < t_now c4
              \<and> t_now c4 < t_now c5 \<and> t_now c5 < t_now c6
              \<and> f_sub (t_now c6) 60 < t_now c1
              \<and> round_double (t_now c1) = t_now c1 \<and> round_double (t_now c6) = t_now c6 \<longrightarrow>
            map allowed (fst (check_sequence rl identifier config [c1, c2, c3, c4, c5, c6]))
              = [True, True, True, True, True, False]
          \<and> map requests_remaining
                (fst (check_sequence rl identifier config [c1, c2, c3, c4, c5, c6]))
              = [4, 3, 2, 1, 0, 0]
          \<and> map retry_after (fst (check_sequence rl identifier config [c1, c2, c3, c4, c5, c6]))
              = [None, None, None, None, None,
                 Some (py_int (f_sub (f_add (t_now c1) 60) (t_now c6)))]
          \<and> 0 \<le> py_int (f_sub (f_add (t_now c1) 60) (t_now c6))
          \<and> (0 < py_int (f_sub (f_add (t_now c1) 60) (t_now c6))
               \<longleftrightarrow> 1 \<le> f_sub (f_add (t_now c1) 60) (t_now c6)))"
proof -
  have l: "0 \<le> py_int (f_sub (f_add (t_local c1) 60) (t_local c6))
         \<and> (0 < py_int (f_sub (f_add (t_local c1) 60) (t_local c6))
               \<longleftrightarrow> 1 \<le> f_sub (f_add (t_local c1) 60) (t_local c6))"
    if "round_double (t_local c6) = t_local c6" "f_sub (t_local c6) (t_local c1) < 60"
    using py_int_positive [OF retry_nonneg_local [OF that]] .
  have s: "0 \<le> py_int (f_sub (f_add (t_now c1) 60) (t_now c6))
         \<and> (0 < py_int (f_sub (f_add (t_now c1) 60) (t_now c6))
               \<longleftrightarrow> 1 \<le> f_sub (f_add (t_now c1) 60) (t_now c6))"
    if "round_double (t_now c1) = t_now c1" "round_double (t_now c6) = t_now c6"
      "f_sub (t_now c6) 60 < t_now c1"
    using py_int_positive [OF retry_nonneg_store [OF that]] .
  show ?thesis
    using sliding_local_six [OF _ _ strat rpm, of rl _ c1 c2 c3 c4 c5 c6]
      sliding_store_six [OF _ _ _ strat rpm, of rl _ _ c1 c2 c3 c4 c5 c6] l s
    by (intro conjI impI allI) (simp_all del: check_sequence.simps)
qed

theorem C5_sliding_window_scenario_witness:
  "strategy five_per_minute = SLIDING_WINDOW \<and> requests_per_minute five_per_minute = 5
   \<and> rl_redis_client local_limiter = None \<and> local_cache local_limiter ''u'' = None
   \<and> f_sub 30 0 < 60 \<and> f_sub 30 60 < 0 \<and> round_double 30 = 30
   \<and> map requests_remaining (fst (check_sequence local_limiter ''u'' five_per_minute sixth_at_30))
       = [4, 3, 2, 1, 0, 0]
   \<and> map retry_after (fst (check_sequence local_limiter ''u'' five_per_minute sixth_at_30))
       = [None, None, None, None, None, Some 30]
   \<and> rl_redis_client up_limiter = Some \<lparr>faults = [], db = empty_rl_db\<rparr>
   \<and> map requests_remaining (fst (check_sequence up_limiter ''u'' five_per_minute sixth_at_30))
       = [4, 3, 2, 1, 0, 0]
   \<and> map retry_after (fst (check_sequence up_limiter ''u'' five_per_minute sixth_at_30))
       = [None, None, None, None, None, Some 30]"
proof -
  have s: "strategy five_per_minute = SLIDING_WINDOW" "requests_per_minute five_per_minute = 5"
    by (simp_all add: five_per_minute_def RateLimitConfig_defaults_def)
  have l: "rl_redis_client local_limiter = None" "local_cache local_limiter ''u'' = None"
    by (simp_all add: local_limiter_def new_RateLimiter_def)
  have u: "rl_redis_client up_limiter = Some \<lparr>faults = [], db = empty_rl_db\<rparr>"
    "faults \<lparr>faults = [], db = empty_rl_db\<rparr> = []"
    "sliding_sets (db \<lparr>faults = [], db = empty_rl_db\<rparr>) ''u'' = []"
    by (simp_all add: up_limiter_def new_RateLimiter_def empty_rl_db_def)
  have t: "f_sub 30 0 < 60" "f_sub 30 60 < 0" "round_double 30 = 30"
    "py_int (f_sub (f_add 0 60) 30) = 30"
    by code_simp+
  show ?thesis
    using s l u t
      C5_sliding_window_scenario [OF s, of local_limiter "''u''"
        "at_time 0" "at_time (1 / 8)" "at_time (2 / 8)" "at_time (3 / 8)" "at_time (4 / 8)"
        "at_time 30"]
      C5_sliding_window_scenario [OF s, of up_limiter "''u''"
        "at_time 0" "at_time (1 / 8)" "at_time (2 / 8)" "at_time (3 / 8)" "at_time (4 / 8)"
        "at_time 30"]
    by (simp add: at_time_def sixth_at_30_def del: check_sequence.simps)
qed

text \<open>
  The claim as the specification states it promises a positive \<^verbatim>\<open>retry_after\<close>. Here
  the sixth check comes 59.5 s after the first, inside the window: it is denied and told
  to retry after 0 seconds.
\<close>

theorem C5_sliding_window_scenario_counterexample:
  "map allowed (fst (check_sequence local_limiter ''u'' five_per_minute sixth_at_59_5))
     = [True, True, True, True, True, False]
   \<and> map retry_after (fst (check_sequence local_limiter ''u'' five_per_minute sixth_at_59_5))
     = [None, None, None, None, None, Some 0]
   \<and> map allowed (fst (check_sequence up_limiter ''u'' five_per_minute sixth_at_59_5))
     = [True, True, True, True, True, False]
   \<and> map retry_after (fst (check_sequence up_limiter ''u'' five_per_minute sixth_at_59_5))
     = [None, None, None, None, None, Some 0]"
  by code_simp

end
